theory Spec2Isabelle
  imports Complex_Main "HOL-Library.AList"
begin

section \<open>Data model (shared schema)\<close>

text \<open>
  The two tables of the shared schema. A \<^verbatim>\<open>jsonb\<close> column holds an arbitrary JSON value.
  The columns \<^verbatim>\<open>createdAt\<close> and \<^verbatim>\<open>updatedAt\<close> are left out of both records: they are
  written from the wall clock on every store and are read only by the listing and statistics
  queries, which are not modelled here. Where a theorem below says that a state or a field is
  unchanged, it speaks of the fields of these records.

  The integer columns of an invoice are nullable in the schema; \<^verbatim>\<open>MemStorage.createInvoice\<close>
  fills them with 0 and no caller of \<^verbatim>\<open>updateInvoice\<close> writes null, so they are plain
  integers here. \<^verbatim>\<open>extractedText\<close>, \<^verbatim>\<open>isEdited\<close> and \<^verbatim>\<open>originalData\<close> keep their null
  (\<open>None\<close>).
\<close>

datatype json =
    JNull
  | JBool bool
  | JNum real
  | JStr string
  | JArr "json list"
  | JObj "(string \<times> json) list"

datatype invoice_status = Uploading | Processing | ReadyForReview | InvoiceApproved | InvoiceRejected

datatype chunk_status = Pending | Approved | Rejected | Editing

record invoice =
  i_id :: string
  filename :: string
  originalPath :: string
  mimeType :: string
  fileSize :: int
  i_status :: invoice_status
  extractedText :: "string option"
  processingProgress :: int
  totalChunks :: int
  approvedChunks :: int
  rejectedChunks :: int

record chunk =
  c_id :: string
  invoiceId :: string
  chunkType :: string
  sequenceNumber :: int
  title :: string
  extractedData :: json
  boundingBox :: json
  confidence :: real
  c_status :: chunk_status
  isEdited :: "bool option"
  originalData :: "json option"

text \<open>\<^verbatim>\<open>InsertInvoice\<close> and \<^verbatim>\<open>InsertChunk\<close>: the columns with a default are optional.\<close>

record insert_invoice =
  ii_filename :: string
  ii_originalPath :: string
  ii_mimeType :: string
  ii_fileSize :: int
  ii_status :: "invoice_status option"
  ii_extractedText :: "string option"
  ii_processingProgress :: "int option"
  ii_totalChunks :: "int option"
  ii_approvedChunks :: "int option"
  ii_rejectedChunks :: "int option"

record insert_chunk =
  ic_invoiceId :: string
  ic_chunkType :: string
  ic_sequenceNumber :: int
  ic_title :: string
  ic_extractedData :: json
  ic_boundingBox :: json
  ic_confidence :: real
  ic_status :: "chunk_status option"
  ic_isEdited :: "bool option"
  ic_originalData :: "json option"

text \<open>
  \<^verbatim>\<open>UpdateChunk\<close> without its \<^verbatim>\<open>id\<close>: every insert column is optional (\<^verbatim>\<open>.partial()\<close>);
  the outer \<open>None\<close> is an absent key, and for the two nullable columns \<open>Some None\<close> is an
  explicit null.
\<close>

record update_chunk =
  uc_invoiceId :: "string option"
  uc_chunkType :: "string option"
  uc_sequenceNumber :: "int option"
  uc_title :: "string option"
  uc_extractedData :: "json option"
  uc_boundingBox :: "json option"
  uc_confidence :: "real option"
  uc_status :: "chunk_status option"
  uc_isEdited :: "bool option option"
  uc_originalData :: "json option option"

section \<open>MemStorage\<close>

text \<open>
  The two JavaScript \<^verbatim>\<open>Map\<close>s are association lists in insertion order: \<^verbatim>\<open>Map.set\<close> on a
  present key replaces the value in place and on a new key appends, which is \<open>AList.update\<close>;
  \<^verbatim>\<open>Map.get\<close> is \<open>map_of\<close>; \<^verbatim>\<open>Map.values()\<close> is \<open>map snd\<close>. The identifier that
  \<^verbatim>\<open>randomUUID()\<close> returns is an argument of the two create operations.
\<close>

record mem_storage =
  invoices :: "(string \<times> invoice) list"
  chunks :: "(string \<times> chunk) list"

definition newMemStorage :: mem_storage where
  "newMemStorage = \<lparr>invoices = [], chunks = []\<rparr>"

definition nullish :: "'a option \<Rightarrow> 'a \<Rightarrow> 'a" where
  "nullish v d = (case v of None \<Rightarrow> d | Some x \<Rightarrow> x)"

definition createInvoice :: "string \<Rightarrow> insert_invoice \<Rightarrow> mem_storage \<Rightarrow> invoice \<times> mem_storage" where
  "createInvoice uuid ins s =
     (let invoice = \<lparr>i_id = uuid,
                 filename = ii_filename ins,
                 originalPath = ii_originalPath ins,
                 mimeType = ii_mimeType ins,
                 fileSize = ii_fileSize ins,
                 i_status = nullish (ii_status ins) Uploading,
                 extractedText = ii_extractedText ins,
                 processingProgress = nullish (ii_processingProgress ins) 0,
                 totalChunks = nullish (ii_totalChunks ins) 0,
                 approvedChunks = nullish (ii_approvedChunks ins) 0,
                 rejectedChunks = nullish (ii_rejectedChunks ins) 0\<rparr>
      in (invoice, s\<lparr>invoices := AList.update uuid invoice (invoices s)\<rparr>))"

definition getInvoice :: "mem_storage \<Rightarrow> string \<Rightarrow> invoice option" where
  "getInvoice s iid = map_of (invoices s) iid"

text \<open>
  \<^verbatim>\<open>updateInvoice(id, updates)\<close>: the \<^verbatim>\<open>Partial<Invoice>\<close> is given as the record update that
  the spread \<^verbatim>\<open>{...invoice, ...updates}\<close> performs.
\<close>

definition updateInvoice ::
  "string \<Rightarrow> (invoice \<Rightarrow> invoice) \<Rightarrow> mem_storage \<Rightarrow> invoice option \<times> mem_storage" where
  "updateInvoice iid updates s =
     (case map_of (invoices s) iid of
        None \<Rightarrow> (None, s)
      | Some invoice \<Rightarrow>
          (let updatedInvoice = updates invoice
           in (Some updatedInvoice, s\<lparr>invoices := AList.update iid updatedInvoice (invoices s)\<rparr>)))"

definition createChunk :: "string \<Rightarrow> insert_chunk \<Rightarrow> mem_storage \<Rightarrow> chunk \<times> mem_storage" where
  "createChunk uuid ins s =
     (let c = \<lparr>c_id = uuid,
               invoiceId = ic_invoiceId ins,
               chunkType = ic_chunkType ins,
               sequenceNumber = ic_sequenceNumber ins,
               title = ic_title ins,
               extractedData = ic_extractedData ins,
               boundingBox = ic_boundingBox ins,
               confidence = ic_confidence ins,
               c_status = nullish (ic_status ins) Pending,
               isEdited = Some (nullish (ic_isEdited ins) False),
               originalData = ic_originalData ins\<rparr>
      in (c, s\<lparr>chunks := AList.update uuid c (chunks s)\<rparr>))"

definition getChunk :: "mem_storage \<Rightarrow> string \<Rightarrow> chunk option" where
  "getChunk s cid = map_of (chunks s) cid"

text \<open>The comparator \<^verbatim>\<open>a.sequenceNumber - b.sequenceNumber\<close> with the stable \<^verbatim>\<open>Array.sort\<close>.\<close>

definition getChunksByInvoice :: "mem_storage \<Rightarrow> string \<Rightarrow> chunk list" where
  "getChunksByInvoice s iid =
     sort_key sequenceNumber (filter (\<lambda>c. invoiceId c = iid) (map snd (chunks s)))"

definition applyUpdates :: "update_chunk \<Rightarrow> chunk \<Rightarrow> chunk" where
  "applyUpdates u c =
     c\<lparr>invoiceId := nullish (uc_invoiceId u) (invoiceId c),
       chunkType := nullish (uc_chunkType u) (chunkType c),
       sequenceNumber := nullish (uc_sequenceNumber u) (sequenceNumber c),
       title := nullish (uc_title u) (title c),
       extractedData := nullish (uc_extractedData u) (extractedData c),
       boundingBox := nullish (uc_boundingBox u) (boundingBox c),
       confidence := nullish (uc_confidence u) (confidence c),
       c_status := nullish (uc_status u) (c_status c),
       isEdited := nullish (uc_isEdited u) (isEdited c),
       originalData := nullish (uc_originalData u) (originalData c)\<rparr>"

definition updateChunk :: "string \<Rightarrow> update_chunk \<Rightarrow> mem_storage \<Rightarrow> chunk option \<times> mem_storage" where
  "updateChunk cid updates s =
     (case map_of (chunks s) cid of
        None \<Rightarrow> (None, s)
      | Some c \<Rightarrow>
          (let updatedChunk = applyUpdates updates c
           in (Some updatedChunk, s\<lparr>chunks := AList.update cid updatedChunk (chunks s)\<rparr>)))"

definition updateChunkStatus :: "string \<Rightarrow> chunk_status \<Rightarrow> mem_storage \<Rightarrow> chunk option \<times> mem_storage" where
  "updateChunkStatus cid st s =
     (case map_of (chunks s) cid of
        None \<Rightarrow> (None, s)
      | Some c \<Rightarrow>
          (let updatedChunk = c\<lparr>c_status := st\<rparr>
           in (Some updatedChunk, s\<lparr>chunks := AList.update cid updatedChunk (chunks s)\<rparr>)))"

section \<open>Routes\<close>

text \<open>
  A handler returns the response and the storage it leaves. An error response carries its
  HTTP status: 400 is the validation error of the specification, 404 the not-found error.
\<close>

datatype http_error = Http400 string | Http404 string | Http500 string

text \<open>The recount that the three chunk routes share: a scan of the owner's chunks.\<close>

definition updateInvoiceStats :: "string \<Rightarrow> mem_storage \<Rightarrow> mem_storage" where
  "updateInvoiceStats iid s =
     (let cs = getChunksByInvoice s iid;
          approvedCount = int (length (filter (\<lambda>c. c_status c = Approved) cs));
          rejectedCount = int (length (filter (\<lambda>c. c_status c = Rejected) cs))
      in snd (updateInvoice iid
                (\<lambda>i. i\<lparr>approvedChunks := approvedCount, rejectedChunks := rejectedCount\<rparr>) s))"

text \<open>
  \<^verbatim>\<open>PATCH /api/chunks/:id\<close>. The route parses \<^verbatim>\<open>{ id, ...req.body }\<close>, so an \<^verbatim>\<open>id\<close> in the body
  takes the place of the one in the URL: \<open>cid\<close> is the id of the parse result, and the body
  is that result without its id, or \<open>None\<close> when the parse throws; the 400 answer then carries
  the message of the schema library, for which a fixed text stands here. A parsed body has a \<^verbatim>\<open>status\<close> exactly when
  \<^verbatim>\<open>req.body.status\<close> is truthy, since the schema admits only the four non-empty status
  strings.
\<close>

definition patchChunk ::
  "string \<Rightarrow> update_chunk option \<Rightarrow> mem_storage \<Rightarrow> (http_error + chunk) \<times> mem_storage" where
  "patchChunk cid body s =
     (case body of
        None \<Rightarrow> (Inl (Http400 ''Failed to update chunk''), s)
      | Some updateData \<Rightarrow>
          (case updateChunk cid updateData s of
             (None, s') \<Rightarrow> (Inl (Http404 ''Chunk not found''), s')
           | (Some updatedChunk, s') \<Rightarrow>
               (Inr updatedChunk,
                if uc_status updateData \<noteq> None
                then updateInvoiceStats (invoiceId updatedChunk) s'
                else s')))"

definition approveChunk :: "string \<Rightarrow> mem_storage \<Rightarrow> (http_error + chunk) \<times> mem_storage" where
  "approveChunk cid s =
     (case updateChunkStatus cid Approved s of
        (None, s') \<Rightarrow> (Inl (Http404 ''Chunk not found''), s')
      | (Some updatedChunk, s') \<Rightarrow>
          (Inr updatedChunk, updateInvoiceStats (invoiceId updatedChunk) s'))"

definition rejectChunk :: "string \<Rightarrow> mem_storage \<Rightarrow> (http_error + chunk) \<times> mem_storage" where
  "rejectChunk cid s =
     (case updateChunkStatus cid Rejected s of
        (None, s') \<Rightarrow> (Inl (Http404 ''Chunk not found''), s')
      | (Some updatedChunk, s') \<Rightarrow>
          (Inr updatedChunk, updateInvoiceStats (invoiceId updatedChunk) s'))"

definition finalizeInvoice :: "string \<Rightarrow> mem_storage \<Rightarrow> (http_error + invoice) \<times> mem_storage" where
  "finalizeInvoice iid s =
     (let cs = getChunksByInvoice s iid;
          hasRejectedChunks = list_ex (\<lambda>c. c_status c = Rejected) cs;
          allChunksReviewed = list_all (\<lambda>c. c_status c \<noteq> Pending \<and> c_status c \<noteq> Editing) cs
      in if \<not> allChunksReviewed
         then (Inl (Http400 ''All chunks must be reviewed before finalizing''), s)
         else
           (let finalStatus = (if hasRejectedChunks then InvoiceRejected else InvoiceApproved)
            in case updateInvoice iid (\<lambda>i. i\<lparr>i_status := finalStatus\<rparr>) s of
                 (None, s') \<Rightarrow> (Inl (Http404 ''Invoice not found''), s')
               | (Some updatedInvoice, s') \<Rightarrow> (Inr updatedInvoice, s')))"

section \<open>Extraction service\<close>

text \<open>
  One entry of the chunk list that the vision model returns (\<^verbatim>\<open>ExtractedChunk\<close>), and the object
  that \<^verbatim>\<open>JSON.parse\<close> gives for the message content. Its \<^verbatim>\<open>chunks\<close> key is absent or falsy,
  or holds a value that is not an array, or holds an array. The entries of an array are
  taken as the interface types them: the parser checks none of them.
\<close>

record extracted_chunk =
  ec_type :: string
  ec_title :: string
  ec_data :: json
  ec_boundingBox :: json
  ec_confidence :: real

datatype chunks_field = ChunksFalsy | ChunksNotArray | ChunksArray "extracted_chunk list"

record raw_result =
  r_chunks :: chunks_field
  r_extractedText :: "string option"

text \<open>\<^verbatim>\<open>ParsedInvoiceData\<close>: each entry with the \<^verbatim>\<open>sequenceNumber\<close> that the parser adds to it.\<close>

record parsed_invoice_data =
  pd_chunks :: "(extracted_chunk \<times> int) list"
  pd_extractedText :: string

text \<open>
  What the run draws from outside the program: the outcome of the image conversion of a file
  path and of the chat completion (with \<^verbatim>\<open>JSON.parse\<close>) for an image, each either the message
  of the error thrown or the value, and the identifiers \<^verbatim>\<open>randomUUID()\<close> returns for the
  invoice and for the chunk created at each index.
\<close>

record collaborators =
  sharpToBase64 :: "string \<Rightarrow> string + string"
  openaiCompletion :: "string \<Rightarrow> string + raw_result"
  invoiceUuid :: string
  chunkUuid :: "nat \<Rightarrow> string"

definition parseInvoiceWithVision :: "collaborators \<Rightarrow> string \<Rightarrow> string + parsed_invoice_data" where
  "parseInvoiceWithVision env base64Image =
     (case openaiCompletion env base64Image of
        Inl message \<Rightarrow> Inl (''Failed to parse invoice: '' @ message)
      | Inr result \<Rightarrow>
          (case r_chunks result of
             ChunksArray cs \<Rightarrow>
               Inr \<lparr>pd_chunks = map (\<lambda>(index, chunk). (chunk, int index + 1)) (enumerate 0 cs),
                    pd_extractedText = (case r_extractedText result of None \<Rightarrow> [] | Some t \<Rightarrow> t)\<rparr>
           | _ \<Rightarrow> Inl (''Failed to parse invoice: '' @ ''Invalid response format from OpenAI'')))"

section \<open>FileProcessor\<close>

definition convertToBase64Image :: "collaborators \<Rightarrow> string \<Rightarrow> string \<Rightarrow> string + string" where
  "convertToBase64Image env filePath mime =
     (if take 6 mime = ''image/'' then sharpToBase64 env filePath
      else if mime = ''application/pdf''
      then Inl ''PDF processing requires additional setup. Please use image files for now.''
      else Inl (''Unsupported file type: '' @ mime))"

text \<open>
  The chunk-creation loop. Every callback of \<^verbatim>\<open>parsedData.chunks.map\<close> runs up to its
  \<^verbatim>\<open>await\<close> before the next one starts, and \<^verbatim>\<open>MemStorage.createChunk\<close> has stored the chunk
  by then: the stores happen in index order. The result lists each created chunk with the
  storage after its store.
\<close>

definition insertChunk :: "string \<Rightarrow> extracted_chunk \<Rightarrow> nat \<Rightarrow> insert_chunk" where
  "insertChunk iid chunkData index =
     \<lparr>ic_invoiceId = iid,
      ic_chunkType = ec_type chunkData,
      ic_sequenceNumber = int index + 1,
      ic_title = ec_title chunkData,
      ic_extractedData = ec_data chunkData,
      ic_boundingBox = ec_boundingBox chunkData,
      ic_confidence = ec_confidence chunkData,
      ic_status = Some Pending,
      ic_isEdited = Some False,
      ic_originalData = None\<rparr>"

fun createChunks ::
  "(nat \<Rightarrow> string) \<Rightarrow> string \<Rightarrow> nat \<Rightarrow> (extracted_chunk \<times> int) list \<Rightarrow> mem_storage
     \<Rightarrow> (chunk \<times> mem_storage) list" where
  "createChunks uuid iid index [] s = []"
| "createChunks uuid iid index (entry # rest) s =
     (let created = createChunk (uuid index) (insertChunk iid (fst entry) index) s
      in created # createChunks uuid iid (Suc index) rest (snd created))"

datatype run_outcome = Completed | Caught string

definition onCatch :: "string \<Rightarrow> mem_storage \<Rightarrow> mem_storage" where
  "onCatch iid s =
     snd (updateInvoice iid (\<lambda>i. i\<lparr>i_status := InvoiceRejected, processingProgress := 0\<rparr>) s)"

definition setProgress :: "string \<Rightarrow> int \<Rightarrow> mem_storage \<Rightarrow> mem_storage" where
  "setProgress iid p s = snd (updateInvoice iid (\<lambda>i. i\<lparr>processingProgress := p\<rparr>) s)"

text \<open>
  The background run, as the list of the storages it leaves after each of its writes, in
  order, with how it ended: \<open>Caught\<close> is the \<^verbatim>\<open>catch\<close> branch, with the message of the error.
\<close>

definition processFileInBackground ::
  "collaborators \<Rightarrow> string \<Rightarrow> string \<Rightarrow> string \<Rightarrow> mem_storage \<Rightarrow> run_outcome \<times> mem_storage list" where
  "processFileInBackground env iid filePath mime s0 =
     (let s1 = setProgress iid 25 s0
      in case convertToBase64Image env filePath mime of
           Inl message \<Rightarrow> (Caught message, [s1, onCatch iid s1])
         | Inr base64Image \<Rightarrow>
             (let s2 = setProgress iid 50 s1
              in case parseInvoiceWithVision env base64Image of
                   Inl message \<Rightarrow> (Caught message, [s1, s2, onCatch iid s2])
                 | Inr parsedData \<Rightarrow>
                     (let s3 = setProgress iid 75 s2;
                          created = createChunks (chunkUuid env) iid 0 (pd_chunks parsedData) s3;
                          s4 = last (s3 # map snd created);
                          s5 = snd (updateInvoice iid
                                 (\<lambda>i. i\<lparr>i_status := ReadyForReview,
                                         processingProgress := 100,
                                         extractedText := Some (pd_extractedText parsedData),
                                         totalChunks := int (length created),
                                         approvedChunks := 0,
                                         rejectedChunks := 0\<rparr>) s4)
                      in (Completed, [s1, s2, s3] @ map snd created @ [s5]))))"

text \<open>
  \<^verbatim>\<open>processUploadedFile\<close> returns the new invoice's id at once and leaves the background run
  detached; here the run is carried to its end, and the result is the id, how the run ended
  and the storages after every write, the first being the one after \<^verbatim>\<open>createInvoice\<close>.
\<close>

definition invoiceData :: "string \<Rightarrow> string \<Rightarrow> string \<Rightarrow> int \<Rightarrow> insert_invoice" where
  "invoiceData filePath fname mime fsize =
     \<lparr>ii_filename = fname,
      ii_originalPath = filePath,
      ii_mimeType = mime,
      ii_fileSize = fsize,
      ii_status = Some Processing,
      ii_extractedText = None,
      ii_processingProgress = Some 10,
      ii_totalChunks = None,
      ii_approvedChunks = None,
      ii_rejectedChunks = None\<rparr>"

definition processUploadedFile ::
  "collaborators \<Rightarrow> string \<Rightarrow> string \<Rightarrow> string \<Rightarrow> int \<Rightarrow> mem_storage
     \<Rightarrow> string \<times> run_outcome \<times> mem_storage list" where
  "processUploadedFile env filePath fname mime fsize s =
     (let created = createInvoice (invoiceUuid env) (invoiceData filePath fname mime fsize) s;
          run = processFileInBackground env (i_id (fst created)) filePath mime (snd created)
      in (i_id (fst created), fst run, snd created # snd run))"

section \<open>Keyboard navigation\<close>

text \<open>
  The key event, with whether its target is an input or a text area, and the callbacks of
  the hook. \<^verbatim>\<open>handleKeyDown\<close> returns the focused index it leaves and the callbacks it invoked.
\<close>

record keyboard_event =
  ev_key :: string
  ev_shiftKey :: bool
  ev_targetIsTextEntry :: bool

datatype callback = OnApprove chunk | OnReject chunk | OnEdit chunk

fun findIndexFrom :: "('a \<Rightarrow> nat \<Rightarrow> bool) \<Rightarrow> nat \<Rightarrow> 'a list \<Rightarrow> nat option" where
  "findIndexFrom p index [] = None"
| "findIndexFrom p index (x # xs) = (if p x index then Some index else findIndexFrom p (Suc index) xs)"

text \<open>\<^verbatim>\<open>Array.findIndex\<close>, with \<open>None\<close> for its -1.\<close>

definition findIndex :: "('a \<Rightarrow> nat \<Rightarrow> bool) \<Rightarrow> 'a list \<Rightarrow> nat option" where
  "findIndex p xs = findIndexFrom p 0 xs"

definition chunkAt :: "chunk list \<Rightarrow> nat \<Rightarrow> chunk option" where
  "chunkAt chunkList i = (if i < length chunkList then Some (chunkList ! i) else None)"

text \<open>
  The search for the next pending chunk, which the \<^verbatim>\<open>Enter\<close> and the \<^verbatim>\<open>r\<close> branch both
  write out: the index found, or the focused index when \<^verbatim>\<open>findIndex\<close> finds none.
\<close>

definition nextPending :: "chunk list \<Rightarrow> nat \<Rightarrow> nat" where
  "nextPending chunkList focusedChunkIndex =
     (case findIndex (\<lambda>chunk index. index > focusedChunkIndex \<and> c_status chunk = Pending) chunkList of
        None \<Rightarrow> focusedChunkIndex
      | Some nextPendingIndex \<Rightarrow> nextPendingIndex)"

definition handleKeyDown :: "chunk list \<Rightarrow> nat \<Rightarrow> keyboard_event \<Rightarrow> nat \<times> callback list" where
  "handleKeyDown chunkList focusedChunkIndex event =
     (if ev_targetIsTextEntry event then (focusedChunkIndex, [])
      else case chunkAt chunkList focusedChunkIndex of
        None \<Rightarrow> (focusedChunkIndex, [])
      | Some focusedChunk \<Rightarrow>
          (if ev_key event = ''Tab'' then
             (if ev_shiftKey event
              then (if focusedChunkIndex > 0 then focusedChunkIndex - 1 else length chunkList - 1, [])
              else (if focusedChunkIndex < length chunkList - 1 then focusedChunkIndex + 1 else 0, []))
           else if ev_key event = ''Enter'' then
             (if c_status focusedChunk = Pending
              then (nextPending chunkList focusedChunkIndex, [OnApprove focusedChunk])
              else (focusedChunkIndex, []))
           else if ev_key event = ''r'' \<or> ev_key event = ''R'' then
             (if c_status focusedChunk = Pending
              then (nextPending chunkList focusedChunkIndex, [OnReject focusedChunk])
              else (focusedChunkIndex, []))
           else if ev_key event = ''e'' \<or> ev_key event = ''E'' then (focusedChunkIndex, [OnEdit focusedChunk])
           else if ev_key event = ''Escape'' then (focusedChunkIndex, [])
           else if ev_key event = ''ArrowDown'' then
             (if focusedChunkIndex < length chunkList - 1 then focusedChunkIndex + 1 else focusedChunkIndex, [])
           else if ev_key event = ''ArrowUp'' then
             (if focusedChunkIndex > 0 then focusedChunkIndex - 1 else focusedChunkIndex, [])
           else (focusedChunkIndex, [])))"

section \<open>Saving an edit\<close>

text \<open>
  \<^verbatim>\<open>ChunkReview.saveChanges\<close>: the edit buffer of the chunk goes to \<^verbatim>\<open>onUpdate\<close>, which the
  approval page binds to the \<^verbatim>\<open>PATCH\<close> route; the body carries exactly three keys.
\<close>

definition saveChanges :: "chunk \<Rightarrow> json \<Rightarrow> mem_storage \<Rightarrow> (http_error + chunk) \<times> mem_storage" where
  "saveChanges c updatedData s =
     patchChunk (c_id c)
       (Some \<lparr>uc_invoiceId = None, uc_chunkType = None, uc_sequenceNumber = None, uc_title = None,
              uc_extractedData = Some updatedData, uc_boundingBox = None, uc_confidence = None,
              uc_status = Some Pending, uc_isEdited = Some (Some True), uc_originalData = None\<rparr>) s"

section \<open>Operation sequences\<close>

text \<open>
  The operations of the upward interface, each run to its end before the next starts: an
  upload with its background run, the three chunk routes and the finalize route.
\<close>

datatype operation =
    Submit collaborators string string string int
  | Approve string
  | Reject string
  | Update string "update_chunk option"
  | Finalize string

text \<open>The storages an operation leaves behind it, write by write for an upload.\<close>

fun observations :: "operation \<Rightarrow> mem_storage \<Rightarrow> mem_storage list" where
  "observations (Submit env filePath fname mime fsize) s =
     snd (snd (processUploadedFile env filePath fname mime fsize s))"
| "observations (Approve cid) s = [snd (approveChunk cid s)]"
| "observations (Reject cid) s = [snd (rejectChunk cid s)]"
| "observations (Update cid body) s = [snd (patchChunk cid body s)]"
| "observations (Finalize iid) s = [snd (finalizeInvoice iid s)]"

definition perform :: "operation \<Rightarrow> mem_storage \<Rightarrow> mem_storage" where
  "perform op s = last (observations op s)"

definition chunkCount :: "collaborators \<Rightarrow> string \<Rightarrow> string \<Rightarrow> nat" where
  "chunkCount env filePath mime =
     (case convertToBase64Image env filePath mime of
        Inl message \<Rightarrow> 0
      | Inr base64Image \<Rightarrow>
          (case parseInvoiceWithVision env base64Image of
             Inl message \<Rightarrow> 0
           | Inr parsedData \<Rightarrow> length (pd_chunks parsedData)))"

text \<open>
  \<^verbatim>\<open>randomUUID()\<close> returns identifiers that are new: the invoice identifier of an upload is not
  a key of the invoice map, and the chunk identifiers it draws differ from each other and
  from the keys of the chunk map.
\<close>

fun uuidsFresh :: "operation \<Rightarrow> mem_storage \<Rightarrow> bool" where
  "uuidsFresh (Submit env filePath fname mime fsize) s =
     (let drawn = map (chunkUuid env) [0 ..< chunkCount env filePath mime]
      in invoiceUuid env \<notin> set (map fst (invoices s))
         \<and> distinct drawn
         \<and> (\<forall>u \<in> set drawn. u \<notin> set (map fst (chunks s))))"
| "uuidsFresh _ s = True"

text \<open>An update keeps the owner of its chunk: its body has no \<^verbatim>\<open>invoiceId\<close>, or the one the
  chunk already has.\<close>

fun keepsOwner :: "operation \<Rightarrow> mem_storage \<Rightarrow> bool" where
  "keepsOwner (Update cid (Some u)) s =
     (case uc_invoiceId u of
        None \<Rightarrow> True
      | Some iid \<Rightarrow> (case getChunk s cid of None \<Rightarrow> True | Some c \<Rightarrow> invoiceId c = iid))"
| "keepsOwner _ s = True"

fun feasible :: "operation list \<Rightarrow> mem_storage \<Rightarrow> bool" where
  "feasible [] s = True"
| "feasible (op # ops) s = (uuidsFresh op s \<and> feasible ops (perform op s))"

fun ownersKept :: "operation list \<Rightarrow> mem_storage \<Rightarrow> bool" where
  "ownersKept [] s = True"
| "ownersKept (op # ops) s = (keepsOwner op s \<and> ownersKept ops (perform op s))"

fun performAll :: "operation list \<Rightarrow> mem_storage \<Rightarrow> mem_storage" where
  "performAll [] s = s"
| "performAll (op # ops) s = performAll ops (perform op s)"

text \<open>Every storage seen along a sequence of operations, from the starting one on.\<close>

fun history :: "operation list \<Rightarrow> mem_storage \<Rightarrow> mem_storage list" where
  "history [] s = [s]"
| "history (op # ops) s = s # observations op s @ history ops (perform op s)"

definition countsBounded :: "mem_storage \<Rightarrow> bool" where
  "countsBounded s =
     list_all (\<lambda>i. approvedChunks i + rejectedChunks i \<le> totalChunks i) (map snd (invoices s))"

section \<open>Counting the chunks of a document\<close>

text \<open>
  The numbers that the recount and the invariants speak of: how many stored chunks name the
  invoice as their owner, and how many of those have a given status.
\<close>

definition ownedCount :: "mem_storage \<Rightarrow> string \<Rightarrow> nat" where
  "ownedCount s iid = length (filter (\<lambda>c. invoiceId c = iid) (map snd (chunks s)))"

definition statusCount :: "mem_storage \<Rightarrow> string \<Rightarrow> chunk_status \<Rightarrow> nat" where
  "statusCount s iid st =
     length (filter (\<lambda>c. invoiceId c = iid \<and> c_status c = st) (map snd (chunks s)))"

text \<open>The stored counts of the invoice are those a recount would write now.\<close>

definition countsInSync :: "mem_storage \<Rightarrow> string \<Rightarrow> bool" where
  "countsInSync s iid =
     (case getInvoice s iid of
        None \<Rightarrow> True
      | Some i \<Rightarrow> approvedChunks i = int (statusCount s iid Approved)
                 \<and> rejectedChunks i = int (statusCount s iid Rejected))"

text \<open>
  The invariant between operations: invoice ids are not repeated; no chunk names an invoice
  that is not stored; a stored invoice has at most \<^verbatim>\<open>totalChunks\<close> chunks, and its counts are
  in sync.
\<close>

definition wellCounted :: "mem_storage \<Rightarrow> bool" where
  "wellCounted s =
     (distinct (map fst (invoices s))
      \<and> (\<forall>iid. case getInvoice s iid of
                  None \<Rightarrow> ownedCount s iid = 0
                | Some i \<Rightarrow> int (ownedCount s iid) \<le> totalChunks i \<and> countsInSync s iid))"

section \<open>Sample data\<close>

definition sampleChunk :: "string \<Rightarrow> string \<Rightarrow> int \<Rightarrow> chunk_status \<Rightarrow> chunk" where
  "sampleChunk cid iid n st =
     \<lparr>c_id = cid, invoiceId = iid, chunkType = ''line_item'', sequenceNumber = n,
      title = ''Item'', extractedData = JObj [(''amount'', JStr ''10'')],
      boundingBox = JObj [(''x'', JNum 0), (''y'', JNum 0), (''width'', JNum 100), (''height'', JNum 15)],
      confidence = 1, c_status = st, isEdited = Some False, originalData = None\<rparr>"

definition sampleInvoice :: "string \<Rightarrow> invoice_status \<Rightarrow> int \<Rightarrow> invoice" where
  "sampleInvoice iid st n =
     \<lparr>i_id = iid, filename = ''scan.png'', originalPath = ''uploads/scan'', mimeType = ''image/png'',
      fileSize = 2048, i_status = st, extractedText = Some ''Invoice'', processingProgress = 100,
      totalChunks = n, approvedChunks = 0, rejectedChunks = 0\<rparr>"

definition sampleEntries :: "extracted_chunk list" where
  "sampleEntries =
     [\<lparr>ec_type = ''header'', ec_title = ''Header Information'',
       ec_data = JObj [(''vendor'', JStr ''ACME'')],
       ec_boundingBox = JObj [(''x'', JNum 0), (''y'', JNum 0), (''width'', JNum 100), (''height'', JNum 15)],
       ec_confidence = 1\<rparr>,
      \<lparr>ec_type = ''totals'', ec_title = ''Totals'',
       ec_data = JObj [(''total'', JStr ''42.00'')],
       ec_boundingBox = JObj [(''x'', JNum 0), (''y'', JNum 80), (''width'', JNum 100), (''height'', JNum 10)],
       ec_confidence = 1\<rparr>]"

text \<open>
  Collaborators for an upload that gets the invoice id \<open>iid\<close>: the conversion succeeds, the
  completion has the given \<^verbatim>\<open>chunks\<close> field, and the chunk ids are \<open>iid-c\<close>, \<open>iid-cc\<close>, ...
\<close>

definition sampleEnv :: "string \<Rightarrow> chunks_field \<Rightarrow> collaborators" where
  "sampleEnv iid field =
     \<lparr>sharpToBase64 = (\<lambda>filePath. Inr ''AAAA''),
      openaiCompletion = (\<lambda>base64Image. Inr \<lparr>r_chunks = field, r_extractedText = Some ''ACME 42.00''\<rparr>),
      invoiceUuid = iid,
      chunkUuid = (\<lambda>k. iid @ ''-'' @ replicate (Suc k) CHR ''c'')\<rparr>"

definition sampleUpload :: "string \<Rightarrow> chunks_field \<Rightarrow> mem_storage \<Rightarrow> string \<times> run_outcome \<times> mem_storage list" where
  "sampleUpload iid field s =
     processUploadedFile (sampleEnv iid field) ''uploads/scan'' ''scan.png'' ''image/png'' 2048 s"

definition sampleSubmit :: "string \<Rightarrow> operation" where
  "sampleSubmit iid =
     Submit (sampleEnv iid (ChunksArray sampleEntries)) ''uploads/scan'' ''scan.png'' ''image/png'' 2048"

text \<open>Bodies for the \<^verbatim>\<open>PATCH\<close> route: one that names another owner, with or without a status,
  and the body of a saved edit.\<close>

definition moveBody :: "string \<Rightarrow> chunk_status option \<Rightarrow> update_chunk" where
  "moveBody iid st =
     \<lparr>uc_invoiceId = Some iid, uc_chunkType = None, uc_sequenceNumber = None, uc_title = None,
      uc_extractedData = None, uc_boundingBox = None, uc_confidence = None,
      uc_status = st, uc_isEdited = None, uc_originalData = None\<rparr>"

definition editBody :: "json \<Rightarrow> update_chunk" where
  "editBody updatedData =
     \<lparr>uc_invoiceId = None, uc_chunkType = None, uc_sequenceNumber = None, uc_title = None,
      uc_extractedData = Some updatedData, uc_boundingBox = None, uc_confidence = None,
      uc_status = Some Pending, uc_isEdited = Some (Some True), uc_originalData = None\<rparr>"

text \<open>What two sample uploads, \<open>''A''\<close> and then \<open>''B''\<close>, leave in an empty storage.\<close>

definition uploadedInvoice :: "string \<Rightarrow> invoice" where
  "uploadedInvoice iid =
     \<lparr>i_id = iid, filename = ''scan.png'', originalPath = ''uploads/scan'', mimeType = ''image/png'',
      fileSize = 2048, i_status = ReadyForReview, extractedText = Some ''ACME 42.00'',
      processingProgress = 100, totalChunks = 2, approvedChunks = 0, rejectedChunks = 0\<rparr>"

definition uploadedChunks :: "string \<Rightarrow> (string \<times> chunk) list" where
  "uploadedChunks iid =
     [(iid @ ''-c'',
       \<lparr>c_id = iid @ ''-c'', invoiceId = iid, chunkType = ''header'', sequenceNumber = 1,
        title = ''Header Information'', extractedData = JObj [(''vendor'', JStr ''ACME'')],
        boundingBox = JObj [(''x'', JNum 0), (''y'', JNum 0), (''width'', JNum 100), (''height'', JNum 15)],
        confidence = 1, c_status = Pending, isEdited = Some False, originalData = None\<rparr>),
      (iid @ ''-cc'',
       \<lparr>c_id = iid @ ''-cc'', invoiceId = iid, chunkType = ''totals'', sequenceNumber = 2,
        title = ''Totals'', extractedData = JObj [(''total'', JStr ''42.00'')],
        boundingBox = JObj [(''x'', JNum 0), (''y'', JNum 80), (''width'', JNum 100), (''height'', JNum 10)],
        confidence = 1, c_status = Pending, isEdited = Some False, originalData = None\<rparr>)]"

definition twoUploads :: mem_storage where
  "twoUploads =
     \<lparr>invoices = [(''A'', uploadedInvoice ''A''), (''B'', uploadedInvoice ''B'')],
      chunks = uploadedChunks ''A'' @ uploadedChunks ''B''\<rparr>"

text \<open>One invoice, \<open>''inv-1''\<close>, with two chunks of the given statuses.\<close>

definition sampleKey :: "string \<Rightarrow> keyboard_event" where
  "sampleKey k = \<lparr>ev_key = k, ev_shiftKey = False, ev_targetIsTextEntry = False\<rparr>"

definition sampleStorage :: "chunk_status \<Rightarrow> chunk_status \<Rightarrow> mem_storage" where
  "sampleStorage st1 st2 =
     \<lparr>invoices = [(''inv-1'', sampleInvoice ''inv-1'' ReadyForReview 2)],
      chunks = [(''c1'', sampleChunk ''c1'' ''inv-1'' 1 st1), (''c2'', sampleChunk ''c2'' ''inv-1'' 2 st2)]\<rparr>"

section \<open>The finalization gate\<close>

lemma set_getChunksByInvoice:
  "set (getChunksByInvoice s iid) = {c \<in> snd ` set (chunks s). invoiceId c = iid}"
  by (auto simp: getChunksByInvoice_def)

lemma reviewed_iff: "(st \<noteq> Pending \<and> st \<noteq> Editing) = (st = Approved \<or> st = Rejected)"
  by (cases st) simp_all

text \<open>
  Claim C1. While a chunk of the document is pending or editing, the finalize route answers
  400 and returns the storage it was given; when every chunk of an existing document is
  approved or rejected, it answers with the updated invoice.
\<close>

theorem finalize_gate:
  "((\<exists>c \<in> snd ` set (chunks s). invoiceId c = iid \<and> (c_status c = Pending \<or> c_status c = Editing))
      \<longrightarrow> finalizeInvoice iid s = (Inl (Http400 ''All chunks must be reviewed before finalizing''), s))
   \<and> ((\<forall>c \<in> snd ` set (chunks s). invoiceId c = iid \<longrightarrow> c_status c = Approved \<or> c_status c = Rejected)
        \<and> getInvoice s iid \<noteq> None
      \<longrightarrow> (\<exists>updatedInvoice s'. finalizeInvoice iid s = (Inr updatedInvoice, s')))"
proof (intro conjI impI)
  assume "\<exists>c \<in> snd ` set (chunks s). invoiceId c = iid \<and> (c_status c = Pending \<or> c_status c = Editing)"
  then have "\<not> list_all (\<lambda>c. c_status c \<noteq> Pending \<and> c_status c \<noteq> Editing) (getChunksByInvoice s iid)"
    unfolding list_all_iff set_getChunksByInvoice by blast
  then show "finalizeInvoice iid s = (Inl (Http400 ''All chunks must be reviewed before finalizing''), s)"
    by (simp add: finalizeInvoice_def Let_def)
next
  assume a: "(\<forall>c \<in> snd ` set (chunks s). invoiceId c = iid \<longrightarrow> c_status c = Approved \<or> c_status c = Rejected)
        \<and> getInvoice s iid \<noteq> None"
  then have "list_all (\<lambda>c. c_status c \<noteq> Pending \<and> c_status c \<noteq> Editing) (getChunksByInvoice s iid)"
    unfolding list_all_iff set_getChunksByInvoice reviewed_iff by blast
  moreover from a obtain i where "map_of (invoices s) iid = Some i"
    by (auto simp: getInvoice_def)
  ultimately show "\<exists>updatedInvoice s'. finalizeInvoice iid s = (Inr updatedInvoice, s')"
    by (simp add: finalizeInvoice_def updateInvoice_def Let_def)
qed

lemmas sample_defs = sampleStorage_def sampleChunk_def sampleInvoice_def getInvoice_def

theorem finalize_gate_witness:
  "(\<exists>c \<in> snd ` set (chunks (sampleStorage Approved Editing)).
       invoiceId c = ''inv-1'' \<and> (c_status c = Pending \<or> c_status c = Editing))
   \<and> finalizeInvoice ''inv-1'' (sampleStorage Approved Editing)
       = (Inl (Http400 ''All chunks must be reviewed before finalizing''), sampleStorage Approved Editing)
   \<and> list_all (\<lambda>c. invoiceId c = ''inv-1'' \<longrightarrow> c_status c = Approved \<or> c_status c = Rejected)
         (map snd (chunks (sampleStorage Approved Rejected)))
   \<and> getInvoice (sampleStorage Approved Rejected) ''inv-1'' \<noteq> None
   \<and> (\<exists>updatedInvoice s'.
        finalizeInvoice ''inv-1'' (sampleStorage Approved Rejected) = (Inr updatedInvoice, s'))"
  using finalize_gate [of "sampleStorage Approved Editing" "''inv-1''"]
    finalize_gate [of "sampleStorage Approved Rejected" "''inv-1''"]
  by (simp add: sample_defs)

lemma finalizeInvoice_success:
  assumes "finalizeInvoice iid s = (Inr updatedInvoice, s')"
  obtains i where "getInvoice s iid = Some i"
    and "updatedInvoice = i\<lparr>i_status :=
            (if list_ex (\<lambda>c. c_status c = Rejected) (getChunksByInvoice s iid)
             then InvoiceRejected else InvoiceApproved)\<rparr>"
    and "s' = s\<lparr>invoices := AList.update iid updatedInvoice (invoices s)\<rparr>"
  using assms
  by (auto simp: finalizeInvoice_def updateInvoice_def getInvoice_def Let_def
      split: if_splits option.splits)

text \<open>
  Claim C2. When the finalize route answers with an invoice, the status of that invoice is
  rejected exactly when a chunk of the document is rejected and approved otherwise, the
  invoice stored under the id is the one returned, and no chunk is touched.
\<close>

theorem finalize_outcome:
  assumes "finalizeInvoice iid s = (Inr updatedInvoice, s')"
  shows "(i_status updatedInvoice = InvoiceRejected
            \<longleftrightarrow> (\<exists>c \<in> snd ` set (chunks s). invoiceId c = iid \<and> c_status c = Rejected))
         \<and> (i_status updatedInvoice \<noteq> InvoiceRejected \<longrightarrow> i_status updatedInvoice = InvoiceApproved)
         \<and> getInvoice s' iid = Some updatedInvoice
         \<and> chunks s' = chunks s"
proof -
  from assms obtain i where
    u: "updatedInvoice = i\<lparr>i_status :=
            (if list_ex (\<lambda>c. c_status c = Rejected) (getChunksByInvoice s iid)
             then InvoiceRejected else InvoiceApproved)\<rparr>"
    and s': "s' = s\<lparr>invoices := AList.update iid updatedInvoice (invoices s)\<rparr>"
    by (rule finalizeInvoice_success)
  have "list_ex (\<lambda>c. c_status c = Rejected) (getChunksByInvoice s iid)
          \<longleftrightarrow> (\<exists>c \<in> snd ` set (chunks s). invoiceId c = iid \<and> c_status c = Rejected)"
    unfolding list_ex_iff set_getChunksByInvoice by blast
  with u s' show ?thesis
    by (simp add: getInvoice_def update_conv')
qed

theorem finalize_outcome_witness:
  "finalizeInvoice ''inv-1'' (sampleStorage Approved Rejected)
     = (Inr (sampleInvoice ''inv-1'' InvoiceRejected 2),
        sampleStorage Approved Rejected\<lparr>invoices := [(''inv-1'', sampleInvoice ''inv-1'' InvoiceRejected 2)]\<rparr>)
   \<and> (i_status (sampleInvoice ''inv-1'' InvoiceRejected 2) = InvoiceRejected
        \<longleftrightarrow> (\<exists>c \<in> snd ` set (chunks (sampleStorage Approved Rejected)).
               invoiceId c = ''inv-1'' \<and> c_status c = Rejected))"
proof -
  have run: "finalizeInvoice ''inv-1'' (sampleStorage Approved Rejected)
     = (Inr (sampleInvoice ''inv-1'' InvoiceRejected 2),
        sampleStorage Approved Rejected\<lparr>invoices := [(''inv-1'', sampleInvoice ''inv-1'' InvoiceRejected 2)]\<rparr>)"
    by (simp add: finalizeInvoice_def getChunksByInvoice_def updateInvoice_def sample_defs Let_def)
  from finalize_outcome [OF run] run show ?thesis by simp
qed

text \<open>
  Claim C10. For an existing document without chunks, whatever its current status, the gate
  passes vacuously: the route answers with the invoice set to approved and stores it.
\<close>

theorem finalize_without_chunks:
  assumes "getInvoice s iid = Some i"
    and "\<forall>c \<in> snd ` set (chunks s). invoiceId c \<noteq> iid"
  shows "finalizeInvoice iid s
           = (Inr (i\<lparr>i_status := InvoiceApproved\<rparr>),
              s\<lparr>invoices := AList.update iid (i\<lparr>i_status := InvoiceApproved\<rparr>) (invoices s)\<rparr>)"
proof -
  from assms(2) have "filter (\<lambda>c. invoiceId c = iid) (map snd (chunks s)) = []"
    by (auto simp: filter_empty_conv)
  then have "getChunksByInvoice s iid = []"
    by (simp add: getChunksByInvoice_def)
  with assms(1) show ?thesis
    by (simp add: finalizeInvoice_def updateInvoice_def getInvoice_def Let_def)
qed


theorem finalize_without_chunks_witness:
  "getInvoice (newMemStorage\<lparr>invoices := [(''inv-2'', sampleInvoice ''inv-2'' InvoiceRejected 0)]\<rparr>) ''inv-2''
     = Some (sampleInvoice ''inv-2'' InvoiceRejected 0)
   \<and> list_all (\<lambda>c. invoiceId c \<noteq> ''inv-2'')
         (map snd (chunks (newMemStorage\<lparr>invoices := [(''inv-2'', sampleInvoice ''inv-2'' InvoiceRejected 0)]\<rparr>)))
   \<and> finalizeInvoice ''inv-2'' (newMemStorage\<lparr>invoices := [(''inv-2'', sampleInvoice ''inv-2'' InvoiceRejected 0)]\<rparr>)
     = (Inr (sampleInvoice ''inv-2'' InvoiceApproved 0),
        newMemStorage\<lparr>invoices := [(''inv-2'', sampleInvoice ''inv-2'' InvoiceApproved 0)]\<rparr>)"
  using finalize_without_chunks [of "newMemStorage\<lparr>invoices := [(''inv-2'', sampleInvoice ''inv-2'' InvoiceRejected 0)]\<rparr>"
      "''inv-2''" "sampleInvoice ''inv-2'' InvoiceRejected 0"]
  by (simp add: newMemStorage_def sample_defs)

section \<open>The review queue navigator\<close>

lemma findIndexFrom_None:
  "findIndexFrom p n xs = None \<longleftrightarrow> (\<forall>k < length xs. \<not> p (xs ! k) (n + k))"
proof (induction xs arbitrary: n)
  case Nil
  show ?case by simp
next
  case (Cons x xs)
  have "(\<forall>k < Suc (length xs). \<not> p ((x # xs) ! k) (n + k))
          \<longleftrightarrow> \<not> p x n \<and> (\<forall>k < length xs. \<not> p (xs ! k) (Suc n + k))"
    by (auto simp: less_Suc_eq_0_disj)
  with Cons.IH [of "Suc n"] show ?case by simp
qed

lemma findIndexFrom_Some:
  "findIndexFrom p n xs = Some j \<Longrightarrow>
     n \<le> j \<and> j < n + length xs \<and> p (xs ! (j - n)) j \<and> (\<forall>k. n \<le> k \<and> k < j \<longrightarrow> \<not> p (xs ! (k - n)) k)"
proof (induction xs arbitrary: n)
  case Nil
  then show ?case by simp
next
  case (Cons x xs)
  show ?case
  proof (cases "p x n")
    case True
    with Cons.prems show ?thesis by auto
  next
    case False
    with Cons.prems have "findIndexFrom p (Suc n) xs = Some j" by simp
    from Cons.IH [OF this] have ih: "Suc n \<le> j" "j < Suc n + length xs" "p (xs ! (j - Suc n)) j"
      "\<forall>k. Suc n \<le> k \<and> k < j \<longrightarrow> \<not> p (xs ! (k - Suc n)) k" by simp_all
    have "\<not> p ((x # xs) ! (k - n)) k" if "n \<le> k" "k < j" for k
    proof (cases "k = n")
      case True
      with False show ?thesis by simp
    next
      case False
      with that have "Suc n \<le> k" by simp
      with ih(4) that have "\<not> p (xs ! (k - Suc n)) k" by simp
      moreover from \<open>Suc n \<le> k\<close> have "k - n = Suc (k - Suc n)" by simp
      ultimately show ?thesis by simp
    qed
    moreover from ih(1) have "j - n = Suc (j - Suc n)" by simp
    ultimately show ?thesis using ih by simp
  qed
qed

lemma nextPending_cases:
  "(nextPending cs i = i \<and> (\<forall>k. i < k \<and> k < length cs \<longrightarrow> c_status (cs ! k) \<noteq> Pending))
   \<or> (i < nextPending cs i \<and> nextPending cs i < length cs
       \<and> c_status (cs ! nextPending cs i) = Pending
       \<and> (\<forall>k. i < k \<and> k < nextPending cs i \<longrightarrow> c_status (cs ! k) \<noteq> Pending))"
proof (cases "findIndex (\<lambda>chunk index. index > i \<and> c_status chunk = Pending) cs")
  case None
  then have "\<forall>k < length cs. \<not> (k > i \<and> c_status (cs ! k) = Pending)"
    by (simp add: findIndex_def findIndexFrom_None)
  with None show ?thesis by (auto simp: nextPending_def)
next
  case (Some j)
  then have "findIndexFrom (\<lambda>chunk index. index > i \<and> c_status chunk = Pending) 0 cs = Some j"
    by (simp add: findIndex_def)
  from findIndexFrom_Some [OF this] Some show ?thesis
    by (auto simp: nextPending_def)
qed

text \<open>
  Claim C9, as the code has it. With the focus on a chunk and the key event outside a text
  entry, \<^verbatim>\<open>Enter\<close> and \<^verbatim>\<open>r\<close>/\<^verbatim>\<open>R\<close> do nothing on a chunk that is not pending. On a pending
  chunk they invoke the approve or the reject callback on it, once, and move the focus to the
  first pending chunk strictly after the focused index, or leave it where it is when there is
  none; the search never wraps.
\<close>

theorem approve_reject_current:
  assumes "\<not> ev_targetIsTextEntry event" and "i < length cs"
    and "ev_key event = ''Enter'' \<or> ev_key event = ''r'' \<or> ev_key event = ''R''"
  shows "(c_status (cs ! i) \<noteq> Pending \<longrightarrow> handleKeyDown cs i event = (i, []))
       \<and> (c_status (cs ! i) = Pending \<longrightarrow>
            snd (handleKeyDown cs i event)
              = [if ev_key event = ''Enter'' then OnApprove (cs ! i) else OnReject (cs ! i)]
            \<and> ((fst (handleKeyDown cs i event) = i
                 \<and> (\<forall>k. i < k \<and> k < length cs \<longrightarrow> c_status (cs ! k) \<noteq> Pending))
               \<or> (i < fst (handleKeyDown cs i event) \<and> fst (handleKeyDown cs i event) < length cs
                   \<and> c_status (cs ! fst (handleKeyDown cs i event)) = Pending
                   \<and> (\<forall>k. i < k \<and> k < fst (handleKeyDown cs i event)
                          \<longrightarrow> c_status (cs ! k) \<noteq> Pending))))"
proof -
  from assms(3) have key: "ev_key event \<noteq> ''Tab''" by auto
  have "handleKeyDown cs i event =
          (if c_status (cs ! i) = Pending
           then (nextPending cs i, [if ev_key event = ''Enter'' then OnApprove (cs ! i) else OnReject (cs ! i)])
           else (i, []))"
    using assms key by (auto simp: handleKeyDown_def chunkAt_def)
  with nextPending_cases [of cs i] show ?thesis by auto
qed

lemmas nav_defs = handleKeyDown_def chunkAt_def nextPending_def findIndex_def sampleKey_def sampleChunk_def

theorem approve_reject_current_witness:
  "\<not> ev_targetIsTextEntry (sampleKey ''Enter'')
   \<and> ev_key (sampleKey ''Enter'') = ''Enter''
   \<and> handleKeyDown [sampleChunk ''c1'' ''inv-1'' 1 Pending, sampleChunk ''c2'' ''inv-1'' 2 Approved,
                  sampleChunk ''c3'' ''inv-1'' 3 Pending, sampleChunk ''c4'' ''inv-1'' 4 Rejected]
     0 (sampleKey ''Enter'') = (2, [OnApprove (sampleChunk ''c1'' ''inv-1'' 1 Pending)])"
  using approve_reject_current [of "sampleKey ''Enter''" 0 
     "[sampleChunk ''c1'' ''inv-1'' 1 Pending, sampleChunk ''c2'' ''inv-1'' 2 Approved,
                  sampleChunk ''c3'' ''inv-1'' 3 Pending, sampleChunk ''c4'' ''inv-1'' 4 Rejected]"]
  by (simp add: nav_defs)

text \<open>
  Claim C9 as stated has the transition invoked on the chunk at the cursor whatever its
  status. On a rejected chunk \<^verbatim>\<open>Enter\<close> invokes nothing.
\<close>

theorem enter_on_decided_chunk:
  "handleKeyDown [sampleChunk ''c1'' ''inv-1'' 1 Rejected] 0 (sampleKey ''Enter'') = (0, [])"
  by (simp add: nav_defs)

section \<open>The processing pipeline\<close>

subsection \<open>Storage facts\<close>

lemma getInvoice_updateInvoice:
  "getInvoice (snd (updateInvoice iid f s)) iid' =
     (if iid' = iid then map_option f (getInvoice s iid) else getInvoice s iid')"
  by (cases "map_of (invoices s) iid") (simp_all add: updateInvoice_def getInvoice_def update_conv' Let_def)

lemma chunks_updateInvoice: "chunks (snd (updateInvoice iid f s)) = chunks s"
  by (cases "map_of (invoices s) iid") (simp_all add: updateInvoice_def Let_def)

lemma getInvoice_setProgress:
  "getInvoice (setProgress iid p s) iid = map_option (\<lambda>i. i\<lparr>processingProgress := p\<rparr>) (getInvoice s iid)"
  by (simp add: setProgress_def getInvoice_updateInvoice)

lemma chunks_setProgress: "chunks (setProgress iid p s) = chunks s"
  by (simp add: setProgress_def chunks_updateInvoice)

lemma getInvoice_onCatch:
  "getInvoice (onCatch iid s) iid =
     map_option (\<lambda>i. i\<lparr>i_status := InvoiceRejected, processingProgress := 0\<rparr>) (getInvoice s iid)"
  by (simp add: onCatch_def getInvoice_updateInvoice)

lemma chunks_onCatch: "chunks (onCatch iid s) = chunks s"
  by (simp add: onCatch_def chunks_updateInvoice)

lemma invoices_createChunk: "invoices (snd (createChunk u ins s)) = invoices s"
  by (simp add: createChunk_def Let_def)

lemma createChunks_invoices:
  "\<forall>s' \<in> set (map snd (createChunks uuid iid n es s)). invoices s' = invoices s"
  by (induction es arbitrary: n s) (auto simp: Let_def invoices_createChunk)

lemma length_createChunks: "length (createChunks uuid iid n es s) = length es"
  by (induction es arbitrary: n s) (simp_all add: Let_def)

lemma parse_Inr:
  "parseInvoiceWithVision env b = Inr pd \<longleftrightarrow>
     (\<exists>result entries. openaiCompletion env b = Inr result \<and> r_chunks result = ChunksArray entries
        \<and> pd = \<lparr>pd_chunks = map (\<lambda>(index, chunk). (chunk, int index + 1)) (enumerate 0 entries),
                pd_extractedText = (case r_extractedText result of None \<Rightarrow> [] | Some t \<Rightarrow> t)\<rparr>)"
  by (auto simp: parseInvoiceWithVision_def split: sum.splits chunks_field.splits)

lemma createInvoice_facts:
  "i_id (fst (createInvoice u ins s)) = u"
  "getInvoice (snd (createInvoice u ins s)) u = Some (fst (createInvoice u ins s))"
  "chunks (snd (createInvoice u ins s)) = chunks s"
  by (simp_all add: createInvoice_def getInvoice_def update_conv' Let_def)

lemma uploaded_invoice:
  "fst (createInvoice u (invoiceData filePath fname mime fsize) s) =
     \<lparr>i_id = u, filename = fname, originalPath = filePath, mimeType = mime,
      fileSize = fsize, i_status = Processing, extractedText = None, processingProgress = 10,
      totalChunks = 0, approvedChunks = 0, rejectedChunks = 0\<rparr>"
  by (simp add: createInvoice_def invoiceData_def nullish_def Let_def)

lemma processUploadedFile_eq:
  "processUploadedFile env filePath fname mime fsize s =
     (invoiceUuid env,
      fst (processFileInBackground env (invoiceUuid env) filePath mime
             (snd (createInvoice (invoiceUuid env) (invoiceData filePath fname mime fsize) s))),
      snd (createInvoice (invoiceUuid env) (invoiceData filePath fname mime fsize) s)
        # snd (processFileInBackground env (invoiceUuid env) filePath mime
                 (snd (createInvoice (invoiceUuid env) (invoiceData filePath fname mime fsize) s))))"
  by (simp add: processUploadedFile_def createInvoice_facts Let_def)

lemma run_Caught:
  assumes "processFileInBackground env iid filePath mime s0 = (Caught message, trace)"
  shows "trace = [setProgress iid 25 s0, onCatch iid (setProgress iid 25 s0)]
       \<or> trace = [setProgress iid 25 s0, setProgress iid 50 (setProgress iid 25 s0),
                   onCatch iid (setProgress iid 50 (setProgress iid 25 s0))]"
  using assms
  by (auto simp: processFileInBackground_def Let_def split: sum.splits)

lemma getInvoice_createChunks:
  "map (\<lambda>s'. getInvoice s' iid) (map snd (createChunks uuid iid' n es s))
     = replicate (length es) (getInvoice s iid)"
proof (induction es arbitrary: n s)
  case Nil
  show ?case by simp
next
  case (Cons e es)
  have "getInvoice (snd (createChunk (uuid n) (insertChunk iid' (fst e) n) s)) iid = getInvoice s iid"
    by (simp add: getInvoice_def invoices_createChunk)
  with Cons.IH show ?case by (simp add: Let_def)
qed

lemma last_createChunks_invoice:
  "getInvoice (last (s # map snd (createChunks uuid iid' n es s))) iid = getInvoice s iid"
proof -
  have "last (s # map snd (createChunks uuid iid' n es s)) \<in> set (s # map snd (createChunks uuid iid' n es s))"
    by (rule last_in_set) simp
  with createChunks_invoices [of uuid iid' n es s] show ?thesis
    by (auto simp: getInvoice_def)
qed

lemma keys_createChunks:
  "fst ` set (chunks (last (s # map snd (createChunks uuid iid n es s))))
     = fst ` set (chunks s) \<union> uuid ` {n ..< n + length es}"
proof (induction es arbitrary: n s)
  case Nil
  show ?case by simp
next
  case (Cons e es)
  define s' where "s' = snd (createChunk (uuid n) (insertChunk iid (fst e) n) s)"
  have keys: "fst ` set (chunks s') = insert (uuid n) (fst ` set (chunks s))"
    by (simp add: s'_def createChunk_def Let_def dom_update)
  have "last (s # map snd (createChunks uuid iid n (e # es) s))
          = last (s' # map snd (createChunks uuid iid (Suc n) es s'))"
    by (simp add: Let_def s'_def)
  moreover have "{n ..< n + length (e # es)} = insert n {Suc n ..< Suc n + length es}"
    by auto
  ultimately show ?case
    using Cons.IH [of s' "Suc n"] keys by auto
qed

lemma convert_Inl_Caught:
  "convertToBase64Image env filePath mime = Inl message \<Longrightarrow>
     fst (processFileInBackground env iid filePath mime s0) = Caught message"
  by (simp add: processFileInBackground_def Let_def)

lemma parse_Inl_Caught:
  "convertToBase64Image env filePath mime = Inr b \<Longrightarrow> parseInvoiceWithVision env b = Inl message \<Longrightarrow>
     fst (processFileInBackground env iid filePath mime s0) = Caught message"
  by (simp add: processFileInBackground_def Let_def)

text \<open>The shape of an upload whose run completes.\<close>

lemma upload_Completed:
  assumes "processUploadedFile env filePath fname mime fsize s = (iid, Completed, trace)"
  obtains b result entries s0 s3 created s5 where
    "convertToBase64Image env filePath mime = Inr b"
    "openaiCompletion env b = Inr result"
    "r_chunks result = ChunksArray entries"
    "iid = invoiceUuid env"
    "s0 = snd (createInvoice iid (invoiceData filePath fname mime fsize) s)"
    "s3 = setProgress iid 75 (setProgress iid 50 (setProgress iid 25 s0))"
    "created = map snd (createChunks (chunkUuid env) iid 0
                 (map (\<lambda>(index, chunk). (chunk, int index + 1)) (enumerate 0 entries)) s3)"
    "s5 = snd (updateInvoice iid
                 (\<lambda>i. i\<lparr>i_status := ReadyForReview,
                         processingProgress := 100,
                         extractedText := Some (case r_extractedText result of None \<Rightarrow> [] | Some t \<Rightarrow> t),
                         totalChunks := int (length entries),
                         approvedChunks := 0,
                         rejectedChunks := 0\<rparr>)
                 (last (s3 # created)))"
    "trace = [s0, setProgress iid 25 s0, setProgress iid 50 (setProgress iid 25 s0), s3] @ created @ [s5]"
proof -
  define s0 where "s0 = snd (createInvoice iid (invoiceData filePath fname mime fsize) s)"
  from assms have iid: "iid = invoiceUuid env"
    and run: "fst (processFileInBackground env iid filePath mime s0) = Completed"
    and trace: "trace = s0 # snd (processFileInBackground env iid filePath mime s0)"
    unfolding processUploadedFile_eq s0_def by (auto simp: prod_eq_iff)
  from run obtain b pd where b: "convertToBase64Image env filePath mime = Inr b"
    and pd: "parseInvoiceWithVision env b = Inr pd"
    by (auto simp: processFileInBackground_def Let_def split: sum.splits)
  from pd obtain result entries where r: "openaiCompletion env b = Inr result"
    "r_chunks result = ChunksArray entries"
    "pd = \<lparr>pd_chunks = map (\<lambda>(index, chunk). (chunk, int index + 1)) (enumerate 0 entries),
           pd_extractedText = (case r_extractedText result of None \<Rightarrow> [] | Some t \<Rightarrow> t)\<rparr>"
    unfolding parse_Inr by blast
  show ?thesis
  proof (rule that [OF b r(1,2) iid s0_def refl refl refl])
    show "trace = [s0, setProgress iid 25 s0, setProgress iid 50 (setProgress iid 25 s0),
                   setProgress iid 75 (setProgress iid 50 (setProgress iid 25 s0))]
            @ map snd (createChunks (chunkUuid env) iid 0
                 (map (\<lambda>(index, chunk). (chunk, int index + 1)) (enumerate 0 entries))
                 (setProgress iid 75 (setProgress iid 50 (setProgress iid 25 s0))))
            @ [snd (updateInvoice iid
                 (\<lambda>i. i\<lparr>i_status := ReadyForReview,
                         processingProgress := 100,
                         extractedText := Some (case r_extractedText result of None \<Rightarrow> [] | Some t \<Rightarrow> t),
                         totalChunks := int (length entries),
                         approvedChunks := 0,
                         rejectedChunks := 0\<rparr>)
                 (last (setProgress iid 75 (setProgress iid 50 (setProgress iid 25 s0))
                        # map snd (createChunks (chunkUuid env) iid 0
                            (map (\<lambda>(index, chunk). (chunk, int index + 1)) (enumerate 0 entries))
                            (setProgress iid 75 (setProgress iid 50 (setProgress iid 25 s0)))))))]"
      unfolding trace using b pd r(3)
      by (simp add: processFileInBackground_def Let_def length_createChunks)
  qed
qed

lemma upload_Caught:
  assumes "processUploadedFile env filePath fname mime fsize s = (iid, Caught message, trace)"
  obtains s0 where
    "iid = invoiceUuid env"
    "s0 = snd (createInvoice iid (invoiceData filePath fname mime fsize) s)"
    "trace = [s0, setProgress iid 25 s0, onCatch iid (setProgress iid 25 s0)]
     \<or> trace = [s0, setProgress iid 25 s0, setProgress iid 50 (setProgress iid 25 s0),
                 onCatch iid (setProgress iid 50 (setProgress iid 25 s0))]"
proof -
  define s0 where "s0 = snd (createInvoice iid (invoiceData filePath fname mime fsize) s)"
  from assms have iid: "iid = invoiceUuid env"
    and run: "processFileInBackground env iid filePath mime s0
                = (Caught message, snd (processFileInBackground env iid filePath mime s0))"
    and trace: "trace = s0 # snd (processFileInBackground env iid filePath mime s0)"
    unfolding processUploadedFile_eq s0_def by (auto simp: prod_eq_iff)
  from run_Caught [OF run] trace that [OF iid s0_def] show ?thesis
    by auto
qed

text \<open>
  Claim C3. The run ends in its \<^verbatim>\<open>catch\<close> branch when the conversion throws, when the
  completion throws, and when the result's chunk list is missing or not an array. Whenever it
  ends there, the invoice is left rejected with progress 0 and the chunk map is, after every
  write of the run, the one the upload found: no chunk of the run exists. When the run
  completes instead, a chunk is stored under each identifier drawn for an entry. The storage
  operations are those of \<^verbatim>\<open>MemStorage\<close>, none of which throws.
\<close>

theorem run_failure:
  assumes "processUploadedFile env filePath fname mime fsize s = (iid, outcome, trace)"
  shows "(\<forall>message. convertToBase64Image env filePath mime = Inl message \<longrightarrow> outcome = Caught message)
       \<and> (\<forall>b message. convertToBase64Image env filePath mime = Inr b
              \<and> openaiCompletion env b = Inl message
            \<longrightarrow> outcome = Caught (''Failed to parse invoice: '' @ message))
       \<and> (\<forall>b result. convertToBase64Image env filePath mime = Inr b
              \<and> openaiCompletion env b = Inr result
              \<and> (r_chunks result = ChunksFalsy \<or> r_chunks result = ChunksNotArray)
            \<longrightarrow> outcome = Caught ''Failed to parse invoice: Invalid response format from OpenAI'')
       \<and> (outcome \<noteq> Completed \<longrightarrow>
            map_option (\<lambda>i. (i_status i, processingProgress i)) (getInvoice (last trace) iid)
              = Some (InvoiceRejected, 0)
            \<and> (\<forall>s' \<in> set trace. chunks s' = chunks s))
       \<and> (outcome = Completed \<longrightarrow>
            chunkUuid env ` {..< chunkCount env filePath mime} \<subseteq> fst ` set (chunks (last trace)))"
proof -
  from assms have outcome: "outcome = fst (processFileInBackground env (invoiceUuid env) filePath mime
      (snd (createInvoice (invoiceUuid env) (invoiceData filePath fname mime fsize) s)))"
    unfolding processUploadedFile_eq by auto
  have first: "\<forall>message. convertToBase64Image env filePath mime = Inl message \<longrightarrow> outcome = Caught message"
    unfolding outcome by (simp add: convert_Inl_Caught)
  have second: "\<forall>b message. convertToBase64Image env filePath mime = Inr b
              \<and> openaiCompletion env b = Inl message
            \<longrightarrow> outcome = Caught (''Failed to parse invoice: '' @ message)"
    unfolding outcome by (auto intro!: parse_Inl_Caught simp: parseInvoiceWithVision_def)
  have third: "\<forall>b result. convertToBase64Image env filePath mime = Inr b
              \<and> openaiCompletion env b = Inr result
              \<and> (r_chunks result = ChunksFalsy \<or> r_chunks result = ChunksNotArray)
            \<longrightarrow> outcome = Caught ''Failed to parse invoice: Invalid response format from OpenAI''"
    unfolding outcome by (auto intro!: parse_Inl_Caught simp: parseInvoiceWithVision_def)
  have fourth: "map_option (\<lambda>i. (i_status i, processingProgress i)) (getInvoice (last trace) iid)
              = Some (InvoiceRejected, 0)
            \<and> (\<forall>s' \<in> set trace. chunks s' = chunks s)" if "outcome \<noteq> Completed"
  proof -
    from that obtain message where "outcome = Caught message" by (cases outcome) auto
    with assms have "processUploadedFile env filePath fname mime fsize s = (iid, Caught message, trace)"
      by simp
    then obtain s0 where s0: "s0 = snd (createInvoice iid (invoiceData filePath fname mime fsize) s)"
      and tr: "trace = [s0, setProgress iid 25 s0, onCatch iid (setProgress iid 25 s0)]
               \<or> trace = [s0, setProgress iid 25 s0, setProgress iid 50 (setProgress iid 25 s0),
                           onCatch iid (setProgress iid 50 (setProgress iid 25 s0))]"
      by (rule upload_Caught)
    have "getInvoice s0 iid \<noteq> None" "chunks s0 = chunks s"
      unfolding s0 by (simp_all add: createInvoice_facts)
    with tr show ?thesis
      by (auto simp: getInvoice_onCatch getInvoice_setProgress chunks_setProgress chunks_onCatch)
  qed
  have fifth: "chunkUuid env ` {..< chunkCount env filePath mime} \<subseteq> fst ` set (chunks (last trace))"
    if "outcome = Completed"
  proof -
    from that assms have "processUploadedFile env filePath fname mime fsize s = (iid, Completed, trace)"
      by simp
    then obtain b result entries s0 s3 created s5 where
      b: "convertToBase64Image env filePath mime = Inr b" "openaiCompletion env b = Inr result"
         "r_chunks result = ChunksArray entries"
      and created: "created = map snd (createChunks (chunkUuid env) iid 0
                 (map (\<lambda>(index, chunk). (chunk, int index + 1)) (enumerate 0 entries)) s3)"
      and s5: "s5 = snd (updateInvoice iid
                 (\<lambda>i. i\<lparr>i_status := ReadyForReview,
                         processingProgress := 100,
                         extractedText := Some (case r_extractedText result of None \<Rightarrow> [] | Some t \<Rightarrow> t),
                         totalChunks := int (length entries),
                         approvedChunks := 0,
                         rejectedChunks := 0\<rparr>)
                 (last (s3 # created)))"
      and tr: "trace = [s0, setProgress iid 25 s0, setProgress iid 50 (setProgress iid 25 s0), s3] @ created @ [s5]"
      by (rule upload_Completed)
    have n: "chunkCount env filePath mime = length entries"
      using b by (simp add: chunkCount_def parseInvoiceWithVision_def)
    from tr have "last trace = s5" by simp
    then have "chunks (last trace) = chunks (last (s3 # created))"
      by (simp only: s5 chunks_updateInvoice)
    then show ?thesis
      unfolding n created by (simp only: keys_createChunks) (auto simp: atLeast0LessThan)
  qed
  from first second third fourth fifth show ?thesis by blast
qed

text \<open>
  Claim C4. On a completed run the progress of the invoice, read after each write from
  \<^verbatim>\<open>createInvoice\<close> on, is 10, 25, 50, then 75 once for the checkpoint and once after each
  chunk store, then 100; and the invoice is left ready for review at 100 with the extracted
  text set, \<^verbatim>\<open>totalChunks\<close> the number of entries and both counts 0.
\<close>

theorem run_checkpoints:
  assumes "processUploadedFile env filePath fname mime fsize s = (iid, Completed, trace)"
  shows "\<exists>b result entries.
           convertToBase64Image env filePath mime = Inr b
         \<and> openaiCompletion env b = Inr result
         \<and> r_chunks result = ChunksArray entries
         \<and> map (\<lambda>s'. map_option processingProgress (getInvoice s' iid)) trace
             = map Some ([10, 25, 50, 75] @ replicate (length entries) 75 @ [100])
         \<and> getInvoice (last trace) iid
             = Some \<lparr>i_id = iid, filename = fname, originalPath = filePath, mimeType = mime,
                     fileSize = fsize, i_status = ReadyForReview,
                     extractedText = Some (case r_extractedText result of None \<Rightarrow> [] | Some t \<Rightarrow> t),
                     processingProgress = 100, totalChunks = int (length entries),
                     approvedChunks = 0, rejectedChunks = 0\<rparr>"
proof -
  from assms obtain b result entries s0 s3 created s5 where
    b: "convertToBase64Image env filePath mime = Inr b" "openaiCompletion env b = Inr result"
       "r_chunks result = ChunksArray entries"
    and s0: "s0 = snd (createInvoice iid (invoiceData filePath fname mime fsize) s)"
    and s3: "s3 = setProgress iid 75 (setProgress iid 50 (setProgress iid 25 s0))"
    and created: "created = map snd (createChunks (chunkUuid env) iid 0
                 (map (\<lambda>(index, chunk). (chunk, int index + 1)) (enumerate 0 entries)) s3)"
    and s5: "s5 = snd (updateInvoice iid
                 (\<lambda>i. i\<lparr>i_status := ReadyForReview,
                         processingProgress := 100,
                         extractedText := Some (case r_extractedText result of None \<Rightarrow> [] | Some t \<Rightarrow> t),
                         totalChunks := int (length entries),
                         approvedChunks := 0,
                         rejectedChunks := 0\<rparr>)
                 (last (s3 # created)))"
    and tr: "trace = [s0, setProgress iid 25 s0, setProgress iid 50 (setProgress iid 25 s0), s3] @ created @ [s5]"
    by (rule upload_Completed)
  have inv0: "getInvoice s0 iid = Some \<lparr>i_id = iid, filename = fname, originalPath = filePath, mimeType = mime,
      fileSize = fsize, i_status = Processing, extractedText = None, processingProgress = 10,
      totalChunks = 0, approvedChunks = 0, rejectedChunks = 0\<rparr>"
    unfolding s0 by (simp add: createInvoice_facts uploaded_invoice)
  have inv3: "getInvoice s3 iid = Some \<lparr>i_id = iid, filename = fname, originalPath = filePath, mimeType = mime,
      fileSize = fsize, i_status = Processing, extractedText = None, processingProgress = 75,
      totalChunks = 0, approvedChunks = 0, rejectedChunks = 0\<rparr>"
    unfolding s3 by (simp add: getInvoice_setProgress inv0)
  have inv4: "getInvoice (last (s3 # created)) iid = getInvoice s3 iid"
    unfolding created by (rule last_createChunks_invoice)
  have mid: "map (\<lambda>s'. map_option processingProgress (getInvoice s' iid)) created
             = replicate (length entries) (Some 75)"
    using getInvoice_createChunks [of iid "chunkUuid env" iid 0
        "map (\<lambda>(index, chunk). (chunk, int index + 1)) (enumerate 0 entries)" s3, 
        THEN arg_cong, of "map (map_option processingProgress)"]
    by (simp add: inv3 comp_def created)
  have inv5: "getInvoice s5 iid
             = Some \<lparr>i_id = iid, filename = fname, originalPath = filePath, mimeType = mime,
                     fileSize = fsize, i_status = ReadyForReview,
                     extractedText = Some (case r_extractedText result of None \<Rightarrow> [] | Some t \<Rightarrow> t),
                     processingProgress = 100, totalChunks = int (length entries),
                     approvedChunks = 0, rejectedChunks = 0\<rparr>"
    unfolding s5 by (simp only: getInvoice_updateInvoice inv4 inv3) simp
  have fin: "last trace = s5"
    unfolding tr by simp
  have prog: "map (\<lambda>s'. map_option processingProgress (getInvoice s' iid)) trace
             = map Some ([10, 25, 50, 75] @ replicate (length entries) 75 @ [100])"
    unfolding tr
    by (simp add: mid inv5 inv3 inv0 getInvoice_setProgress)
  from b prog fin inv5 show ?thesis by (simp only:) blast
qed

lemma update_fresh: "k \<notin> fst ` set al \<Longrightarrow> AList.update k v al = al @ [(k, v)]"
  by (induction al) auto

lemma createChunks_append:
  assumes "distinct (map uuid [n ..< n + length es])"
    and "\<forall>k \<in> {n ..< n + length es}. uuid k \<notin> fst ` set (chunks s)"
  shows "chunks (last (s # map snd (createChunks uuid iid n es s)))
           = chunks s @ map (\<lambda>(k, e). (uuid k, fst (createChunk (uuid k) (insertChunk iid (fst e) k) newMemStorage)))
                          (enumerate n es)"
  using assms
proof (induction es arbitrary: n s)
  case Nil
  show ?case by simp
next
  case (Cons e es)
  define c where "c = fst (createChunk (uuid n) (insertChunk iid (fst e) n) newMemStorage)"
  define s' where "s' = snd (createChunk (uuid n) (insertChunk iid (fst e) n) s)"
  from Cons.prems(2) have "uuid n \<notin> fst ` set (chunks s)" by simp
  then have chunks': "chunks s' = chunks s @ [(uuid n, c)]"
    by (simp add: s'_def c_def createChunk_def Let_def update_fresh)
  have upt: "[n ..< n + length (e # es)] = n # [Suc n ..< Suc n + length es]"
    using upt_conv_Cons [of n "n + length (e # es)"] by simp
  from Cons.prems(1) have "distinct (uuid n # map uuid [Suc n ..< Suc n + length es])"
    unfolding upt by (simp only: list.map)
  then have d: "distinct (map uuid [Suc n ..< Suc n + length es])"
    and nn: "uuid n \<notin> uuid ` {Suc n ..< Suc n + length es}"
    unfolding distinct.simps set_map set_upt by blast+
  have "uuid k \<notin> fst ` set (chunks s')" if "k \<in> {Suc n ..< Suc n + length es}" for k
  proof -
    from that have "k \<in> {n ..< n + length (e # es)}" by auto
    with Cons.prems(2) have "uuid k \<notin> fst ` set (chunks s)" by blast
    moreover from that nn have "uuid k \<noteq> uuid n" by (metis imageI)
    ultimately show ?thesis by (simp add: chunks')
  qed
  then have "\<forall>k \<in> {Suc n ..< Suc n + length es}. uuid k \<notin> fst ` set (chunks s')" by blast
  from Cons.IH [OF d this]
  have "chunks (last (s' # map snd (createChunks uuid iid (Suc n) es s')))
          = chunks s' @ map (\<lambda>(k, e). (uuid k, fst (createChunk (uuid k) (insertChunk iid (fst e) k) newMemStorage)))
                          (enumerate (Suc n) es)" .
  moreover have "last (s # map snd (createChunks uuid iid n (e # es) s))
          = last (s' # map snd (createChunks uuid iid (Suc n) es s'))"
    by (simp add: Let_def s'_def)
  ultimately show ?case by (simp add: chunks' c_def)
qed

lemma enumerate_parsed:
  "map (\<lambda>(k, e). F k (fst e)) (enumerate n (map (\<lambda>(index, chunk). (chunk, G index)) (enumerate m xs)))
     = map (\<lambda>(k, e). F k e) (enumerate n xs)"
  by (induction xs arbitrary: n m) simp_all

lemma sorted_enumerate: "sorted (map (\<lambda>(k, e). int k + 1) (enumerate n xs))"
  by (induction xs arbitrary: n) (auto simp: in_set_enumerate_eq)

text \<open>What the chunk-creation loop with new identifiers leaves in the chunk map.\<close>

lemma created_stored:
  assumes "uuidsFresh (Submit env filePath fname mime fsize) s"
    and b: "convertToBase64Image env filePath mime = Inr b" "openaiCompletion env b = Inr result"
       "r_chunks result = ChunksArray entries"
    and chunks3: "chunks s3 = chunks s"
  shows "chunks (last (s3 # map snd (createChunks (chunkUuid env) iid 0
                 (map (\<lambda>(index, chunk). (chunk, int index + 1)) (enumerate 0 entries)) s3)))
       = chunks s @
         map (\<lambda>(k, e). (chunkUuid env k,
                \<lparr>c_id = chunkUuid env k, invoiceId = iid, chunkType = ec_type e,
                 sequenceNumber = int k + 1, title = ec_title e, extractedData = ec_data e,
                 boundingBox = ec_boundingBox e, confidence = ec_confidence e,
                 c_status = Pending, isEdited = Some False, originalData = None\<rparr>))
           (enumerate 0 entries)"
proof -
  let ?stored = "\<lambda>(k, e). \<lparr>c_id = chunkUuid env k, invoiceId = iid, chunkType = ec_type e,
                       sequenceNumber = int k + 1, title = ec_title e, extractedData = ec_data e,
                       boundingBox = ec_boundingBox e, confidence = ec_confidence e,
                       c_status = Pending, isEdited = Some False, originalData = None\<rparr>"
  let ?es = "map (\<lambda>(index, chunk). (chunk, int index + 1)) (enumerate 0 entries)"
  have n: "chunkCount env filePath mime = length entries"
    using b by (simp add: chunkCount_def parseInvoiceWithVision_def)
  from assms(1) have fresh: "distinct (map (chunkUuid env) [0 ..< 0 + length ?es])"
    "\<forall>k \<in> {0 ..< 0 + length ?es}. chunkUuid env k \<notin> fst ` set (chunks s3)"
    by (simp_all add: n chunks3 Let_def)
  have "chunks (last (s3 # map snd (createChunks (chunkUuid env) iid 0 ?es s3)))
      = chunks s3 @ map (\<lambda>(k, e). (chunkUuid env k,
        fst (createChunk (chunkUuid env k) (insertChunk iid (fst e) k) newMemStorage))) (enumerate 0 ?es)"
    by (rule createChunks_append [OF fresh])
  also have "map (\<lambda>(k, e). (chunkUuid env k,
        fst (createChunk (chunkUuid env k) (insertChunk iid (fst e) k) newMemStorage))) (enumerate 0 ?es)
      = map (\<lambda>(k, e). (chunkUuid env k,
        fst (createChunk (chunkUuid env k) (insertChunk iid e k) newMemStorage))) (enumerate 0 entries)"
    by (rule enumerate_parsed)
  also have "\<dots> = map (\<lambda>(k, e). (chunkUuid env k, ?stored (k, e))) (enumerate 0 entries)"
    by (simp add: createChunk_def insertChunk_def nullish_def Let_def)
  finally show ?thesis
    by (simp add: chunks3 case_prod_unfold)
qed

lemma invoices_last_created:
  "invoices (last (s3 # map snd (createChunks uuid iid n es s3))) = invoices s3"
proof -
  have "last (s3 # map snd (createChunks uuid iid n es s3)) \<in> set (s3 # map snd (createChunks uuid iid n es s3))"
    by (rule last_in_set) simp
  with createChunks_invoices [of uuid iid n es s3] show ?thesis by auto
qed


lemma upload_stored:
  assumes "processUploadedFile env filePath fname mime fsize s = (iid, Completed, trace)"
    and "uuidsFresh (Submit env filePath fname mime fsize) s"
  obtains b result entries where
    "convertToBase64Image env filePath mime = Inr b"
    "openaiCompletion env b = Inr result"
    "r_chunks result = ChunksArray entries"
    "chunks (last trace)
       = chunks s @
         map (\<lambda>(k, e). (chunkUuid env k,
                \<lparr>c_id = chunkUuid env k, invoiceId = iid, chunkType = ec_type e,
                 sequenceNumber = int k + 1, title = ec_title e, extractedData = ec_data e,
                 boundingBox = ec_boundingBox e, confidence = ec_confidence e,
                 c_status = Pending, isEdited = Some False, originalData = None\<rparr>))
           (enumerate 0 entries)"
proof (rule upload_Completed [OF assms(1)])
  fix b result entries s0 s3 created s5
  assume b: "convertToBase64Image env filePath mime = Inr b" "openaiCompletion env b = Inr result"
      "r_chunks result = ChunksArray entries"
    and s0: "s0 = snd (createInvoice iid (invoiceData filePath fname mime fsize) s)"
    and s3: "s3 = setProgress iid 75 (setProgress iid 50 (setProgress iid 25 s0))"
    and created: "created = map snd (createChunks (chunkUuid env) iid 0
                 (map (\<lambda>(index, chunk). (chunk, int index + 1)) (enumerate 0 entries)) s3)"
    and s5: "s5 = snd (updateInvoice iid
                 (\<lambda>i. i\<lparr>i_status := ReadyForReview,
                         processingProgress := 100,
                         extractedText := Some (case r_extractedText result of None \<Rightarrow> [] | Some t \<Rightarrow> t),
                         totalChunks := int (length entries),
                         approvedChunks := 0,
                         rejectedChunks := 0\<rparr>)
                 (last (s3 # created)))"
    and tr: "trace = [s0, setProgress iid 25 s0, setProgress iid 50 (setProgress iid 25 s0), s3] @ created @ [s5]"
  have chunks3: "chunks s3 = chunks s"
    unfolding s3 s0 by (simp add: chunks_setProgress createInvoice_facts)
  have "last trace = s5" unfolding tr by simp
  then have "chunks (last trace) = chunks (last (s3 # created))"
    by (simp only: s5 chunks_updateInvoice)
  also have "\<dots> = chunks s @
         map (\<lambda>(k, e). (chunkUuid env k,
                \<lparr>c_id = chunkUuid env k, invoiceId = iid, chunkType = ec_type e,
                 sequenceNumber = int k + 1, title = ec_title e, extractedData = ec_data e,
                 boundingBox = ec_boundingBox e, confidence = ec_confidence e,
                 c_status = Pending, isEdited = Some False, originalData = None\<rparr>))
           (enumerate 0 entries)"
    unfolding created using assms(2) b chunks3 by (rule created_stored)
  finally show thesis using b by (intro that)
qed

text \<open>
  Claim C5. On a completed run with new identifiers the chunk map gains, in the order of the
  entries, one chunk per entry: sequence number the 1-based position, type, title, data,
  bounding box and confidence those of the entry, status pending, not edited, no original
  data. When no older chunk names the new invoice, these are the chunks listed for it.
\<close>

theorem chunk_creation:
  assumes "processUploadedFile env filePath fname mime fsize s = (iid, Completed, trace)"
    and "uuidsFresh (Submit env filePath fname mime fsize) s"
  shows "\<exists>b result entries.
           convertToBase64Image env filePath mime = Inr b
         \<and> openaiCompletion env b = Inr result
         \<and> r_chunks result = ChunksArray entries
         \<and> chunks (last trace)
             = chunks s @
               map (\<lambda>(k, e). (chunkUuid env k,
                      \<lparr>c_id = chunkUuid env k, invoiceId = iid, chunkType = ec_type e,
                       sequenceNumber = int k + 1, title = ec_title e, extractedData = ec_data e,
                       boundingBox = ec_boundingBox e, confidence = ec_confidence e,
                       c_status = Pending, isEdited = Some False, originalData = None\<rparr>))
                 (enumerate 0 entries)
         \<and> ((\<forall>c \<in> snd ` set (chunks s). invoiceId c \<noteq> iid) \<longrightarrow>
              getChunksByInvoice (last trace) iid
                = map (\<lambda>(k, e).
                      \<lparr>c_id = chunkUuid env k, invoiceId = iid, chunkType = ec_type e,
                       sequenceNumber = int k + 1, title = ec_title e, extractedData = ec_data e,
                       boundingBox = ec_boundingBox e, confidence = ec_confidence e,
                       c_status = Pending, isEdited = Some False, originalData = None\<rparr>)
                    (enumerate 0 entries))"
proof -
  let ?stored = "\<lambda>(k, e). \<lparr>c_id = chunkUuid env k, invoiceId = iid, chunkType = ec_type e,
                       sequenceNumber = int k + 1, title = ec_title e, extractedData = ec_data e,
                       boundingBox = ec_boundingBox e, confidence = ec_confidence e,
                       c_status = Pending, isEdited = Some False, originalData = None\<rparr>"
  from assms obtain b result entries where
    b: "convertToBase64Image env filePath mime = Inr b" "openaiCompletion env b = Inr result"
       "r_chunks result = ChunksArray entries"
    and stored: "chunks (last trace)
       = chunks s @ map (\<lambda>(k, e). (chunkUuid env k, ?stored (k, e))) (enumerate 0 entries)"
    by (rule upload_stored) (simp add: case_prod_unfold)
  have listed: "getChunksByInvoice (last trace) iid = map ?stored (enumerate 0 entries)"
    if old: "\<forall>c \<in> snd ` set (chunks s). invoiceId c \<noteq> iid"
  proof -
    from old have "filter (\<lambda>c. invoiceId c = iid) (map snd (chunks s)) = []"
      by (auto simp: filter_empty_conv)
    moreover have "filter (\<lambda>c. invoiceId c = iid) (map ?stored (enumerate 0 entries))
        = map ?stored (enumerate 0 entries)"
      by (rule filter_True) auto
    moreover have "map snd (map (\<lambda>(k, e). (chunkUuid env k, ?stored (k, e))) (enumerate 0 entries))
        = map ?stored (enumerate 0 entries)"
      by (simp add: case_prod_unfold)
    ultimately have "filter (\<lambda>c. invoiceId c = iid) (map snd (chunks (last trace)))
        = map ?stored (enumerate 0 entries)"
      unfolding stored by (simp only: map_append filter_append append_Nil)
    moreover have "sorted (map sequenceNumber (map ?stored (enumerate 0 entries)))"
      using sorted_enumerate [of 0 entries] by (simp add: case_prod_unfold comp_def)
    ultimately show ?thesis
      by (simp only: getChunksByInvoice_def sort_key_id_if_sorted)
  qed
  from b stored listed show ?thesis
    by (intro exI [of _ b] exI [of _ result] exI [of _ entries]) (simp add: case_prod_unfold)
qed

lemmas upload_defs = sampleUpload_def sampleEnv_def processUploadedFile_eq processFileInBackground_def
  convertToBase64Image_def parseInvoiceWithVision_def

lemma sample_completed:
  "sampleUpload ''A'' (ChunksArray sampleEntries) newMemStorage
     = (''A'', Completed, snd (snd (sampleUpload ''A'' (ChunksArray sampleEntries) newMemStorage)))"
  by (simp add: upload_defs Let_def)

lemma sample_caught:
  "sampleUpload ''A'' ChunksFalsy newMemStorage
     = (''A'', Caught ''Failed to parse invoice: Invalid response format from OpenAI'',
        snd (snd (sampleUpload ''A'' ChunksFalsy newMemStorage)))"
  by (simp add: upload_defs Let_def)

lemma sample_fresh:
  "uuidsFresh (Submit (sampleEnv ''A'' (ChunksArray sampleEntries)) ''uploads/scan'' ''scan.png'' ''image/png'' 2048)
     newMemStorage"
  by (simp add: sampleEnv_def chunkCount_def convertToBase64Image_def parseInvoiceWithVision_def
      sampleEntries_def newMemStorage_def Let_def upt_rec)

theorem run_failure_witness:
  "fst (snd (sampleUpload ''A'' ChunksFalsy newMemStorage))
     = Caught ''Failed to parse invoice: Invalid response format from OpenAI''
   \<and> map_option (\<lambda>i. (i_status i, processingProgress i))
        (getInvoice (last (snd (snd (sampleUpload ''A'' ChunksFalsy newMemStorage)))) ''A'')
      = Some (InvoiceRejected, 0)
   \<and> chunks (last (snd (snd (sampleUpload ''A'' ChunksFalsy newMemStorage)))) = []"
proof -
  have "snd (snd (sampleUpload ''A'' ChunksFalsy newMemStorage)) \<noteq> []"
    by (simp add: upload_defs)
  then have "last (snd (snd (sampleUpload ''A'' ChunksFalsy newMemStorage)))
      \<in> set (snd (snd (sampleUpload ''A'' ChunksFalsy newMemStorage)))"
    by (rule last_in_set)
  moreover have "fst (snd (sampleUpload ''A'' ChunksFalsy newMemStorage))
     = Caught ''Failed to parse invoice: Invalid response format from OpenAI''"
    by (subst sample_caught) simp
  ultimately show ?thesis
    using run_failure [OF sample_caught [unfolded sampleUpload_def]]
    by (auto simp: sampleUpload_def newMemStorage_def)
qed

theorem run_checkpoints_witness:
  "map (\<lambda>s'. map_option processingProgress (getInvoice s' ''A''))
       (snd (snd (sampleUpload ''A'' (ChunksArray sampleEntries) newMemStorage)))
     = [Some 10, Some 25, Some 50, Some 75, Some 75, Some 75, Some 100]
   \<and> map_option (\<lambda>i. (i_status i, processingProgress i, extractedText i, totalChunks i, approvedChunks i, rejectedChunks i))
       (getInvoice (last (snd (snd (sampleUpload ''A'' (ChunksArray sampleEntries) newMemStorage)))) ''A'')
     = Some (ReadyForReview, 100, Some ''ACME 42.00'', 2, 0, 0)"
  using run_checkpoints [OF sample_completed [unfolded sampleUpload_def]]
  by (auto simp: sampleUpload_def sampleEnv_def convertToBase64Image_def sampleEntries_def)

theorem chunk_creation_witness:
  "map (\<lambda>c. (c_id c, sequenceNumber c, chunkType c, c_status c, isEdited c, originalData c))
       (getChunksByInvoice (last (snd (snd (sampleUpload ''A'' (ChunksArray sampleEntries) newMemStorage)))) ''A'')
     = [(''A-c'', 1, ''header'', Pending, Some False, None),
        (''A-cc'', 2, ''totals'', Pending, Some False, None)]"
  using chunk_creation [OF sample_completed [unfolded sampleUpload_def] sample_fresh]
  by (auto simp: sampleUpload_def sampleEnv_def convertToBase64Image_def sampleEntries_def newMemStorage_def)

section \<open>The saved edit\<close>

text \<open>A saved edit writes the data, the edited flag and the status, and nothing else.\<close>

lemma saveChanges_result:
  assumes "getChunk s (c_id c) = Some c0"
  shows "fst (saveChanges c updatedData s)
           = Inr (c0\<lparr>extractedData := updatedData, c_status := Pending, isEdited := Some True\<rparr>)"
  using assms
  by (simp add: saveChanges_def patchChunk_def updateChunk_def applyUpdates_def nullish_def
      getChunk_def Let_def)

text \<open>
  Claim C8, on the first edit of a chunk that was approved with data \<open>amount = 10\<close>: the
  new data is written, \<^verbatim>\<open>isEdited\<close> is true and the status is pending again, but
  \<^verbatim>\<open>originalData\<close> is still null: the data from before the edit is kept nowhere.
\<close>

theorem saveChanges_first_edit:
  "fst (saveChanges (sampleChunk ''c1'' ''inv-1'' 1 Approved) (JObj [(''amount'', JStr ''12'')])
          (sampleStorage Approved Pending))
     = Inr ((sampleChunk ''c1'' ''inv-1'' 1 Pending)
             \<lparr>extractedData := JObj [(''amount'', JStr ''12'')], isEdited := Some True,
              originalData := None\<rparr>)
   \<and> getChunk (snd (saveChanges (sampleChunk ''c1'' ''inv-1'' 1 Approved) (JObj [(''amount'', JStr ''12'')])
          (sampleStorage Approved Pending))) ''c1''
     = Some ((sampleChunk ''c1'' ''inv-1'' 1 Pending)
             \<lparr>extractedData := JObj [(''amount'', JStr ''12'')], isEdited := Some True,
              originalData := None\<rparr>)"
  by (simp add: saveChanges_def patchChunk_def updateChunk_def applyUpdates_def nullish_def
      updateInvoiceStats_def updateInvoice_def getChunk_def sampleStorage_def sampleChunk_def Let_def)

section \<open>Counts and totals\<close>

subsection \<open>Counts under the storage operations\<close>

lemma length_filter_sort_key: "length (filter P (sort_key f xs)) = length (filter P xs)"
  by (simp add: filter_sort)

lemma recount_statusCount:
  "length (filter (\<lambda>c. c_status c = st) (getChunksByInvoice s iid)) = statusCount s iid st"
  by (simp add: getChunksByInvoice_def statusCount_def length_filter_sort_key conj_commute)

lemma statusCount_le_ownedCount:
  "statusCount s iid Approved + statusCount s iid Rejected \<le> ownedCount s iid"
proof -
  have "length (filter (\<lambda>c. invoiceId c = iid \<and> c_status c = Approved) xs)
        + length (filter (\<lambda>c. invoiceId c = iid \<and> c_status c = Rejected) xs)
        \<le> length (filter (\<lambda>c. invoiceId c = iid) xs)" for xs :: "chunk list"
    by (induction xs) auto
  then show ?thesis unfolding statusCount_def ownedCount_def .
qed

lemma filter_update_length:
  "map_of al k = Some v \<Longrightarrow> P v' = P v \<Longrightarrow>
     length (filter (P \<circ> snd) (AList.update k v' al)) = length (filter (P \<circ> snd) al)"
  by (induction al) (auto split: if_splits)

lemma list_all_update:
  "list_all P (map snd al) \<Longrightarrow> P v \<Longrightarrow> list_all P (map snd (AList.update k v al))"
  by (induction al) auto

lemma update_same: "map_of al k = Some v \<Longrightarrow> AList.update k v al = al"
  by (induction al) (auto split: if_splits)

lemma distinct_updateInvoice:
  "distinct (map fst (invoices (snd (updateInvoice iid f s)))) = distinct (map fst (invoices s))"
proof (cases "map_of (invoices s) iid")
  case None
  then show ?thesis by (simp add: updateInvoice_def)
next
  case (Some i)
  then have "iid \<in> set (map fst (invoices s))"
    by (metis map_of_eq_None_iff option.distinct(1) set_map)
  with Some show ?thesis
    by (simp add: updateInvoice_def Let_def update_keys)
qed

lemma ownedCount_cong: "chunks s' = chunks s \<Longrightarrow> ownedCount s' iid = ownedCount s iid"
  by (simp add: ownedCount_def)

lemma statusCount_cong: "chunks s' = chunks s \<Longrightarrow> statusCount s' iid st = statusCount s iid st"
  by (simp add: statusCount_def)

text \<open>An invoice update that leaves the three counters alone keeps the invariant.\<close>

lemma wellCounted_updateInvoice:
  assumes "wellCounted s"
    and "\<And>i. totalChunks (f i) = totalChunks i \<and> approvedChunks (f i) = approvedChunks i
            \<and> rejectedChunks (f i) = rejectedChunks i"
  shows "wellCounted (snd (updateInvoice iid f s))"
proof -
  let ?s' = "snd (updateInvoice iid f s)"
  have c: "chunks ?s' = chunks s" by (rule chunks_updateInvoice)
  have "case getInvoice ?s' k of
          None \<Rightarrow> ownedCount ?s' k = 0
        | Some i \<Rightarrow> int (ownedCount ?s' k) \<le> totalChunks i \<and> countsInSync ?s' k" for k
    using assms(1) [unfolded wellCounted_def, THEN conjunct2, rule_format, of k] assms(2)
    by (auto simp: getInvoice_updateInvoice countsInSync_def ownedCount_cong [OF c]
          statusCount_cong [OF c] split: option.splits)
  with assms(1) show ?thesis
    by (simp add: wellCounted_def distinct_updateInvoice)
qed

lemma countsBounded_updateInvoice:
  assumes "countsBounded s"
    and "\<And>i. approvedChunks i + rejectedChunks i \<le> totalChunks i
            \<Longrightarrow> approvedChunks (f i) + rejectedChunks (f i) \<le> totalChunks (f i)"
  shows "countsBounded (snd (updateInvoice iid f s))"
proof (cases "map_of (invoices s) iid")
  case None
  with assms(1) show ?thesis by (simp add: updateInvoice_def)
next
  case (Some i)
  then have "(iid, i) \<in> set (invoices s)" by (rule map_of_SomeD)
  with assms(1) have "approvedChunks i + rejectedChunks i \<le> totalChunks i"
    by (auto simp: countsBounded_def list_all_iff)
  then have "approvedChunks (f i) + rejectedChunks (f i) \<le> totalChunks (f i)" by (rule assms(2))
  with assms(1) Some show ?thesis
    by (simp add: updateInvoice_def Let_def countsBounded_def list_all_update)
qed

lemma wellCounted_countsBounded:
  assumes "wellCounted s"
  shows "countsBounded s"
proof -
  have "approvedChunks i + rejectedChunks i \<le> totalChunks i" if "(k, i) \<in> set (invoices s)" for k i
  proof -
    from assms that have g: "getInvoice s k = Some i"
      by (simp add: wellCounted_def getInvoice_def)
    with assms have "int (ownedCount s k) \<le> totalChunks i" "countsInSync s k"
      by (auto simp: wellCounted_def split: option.splits dest!: spec [of _ k])
    with g statusCount_le_ownedCount [of s k] show ?thesis
      by (simp add: countsInSync_def)
  qed
  then show ?thesis by (auto simp: countsBounded_def list_all_iff)
qed

lemma getInvoice_updateInvoiceStats:
  "getInvoice (updateInvoiceStats owner s) iid =
     (if iid = owner
      then map_option (\<lambda>i. i\<lparr>approvedChunks := int (statusCount s owner Approved),
                               rejectedChunks := int (statusCount s owner Rejected)\<rparr>) (getInvoice s owner)
      else getInvoice s iid)"
  by (simp add: updateInvoiceStats_def Let_def getInvoice_updateInvoice recount_statusCount)

lemma chunks_updateInvoiceStats: "chunks (updateInvoiceStats owner s) = chunks s"
  by (simp add: updateInvoiceStats_def Let_def chunks_updateInvoice)

lemma distinct_updateInvoiceStats:
  "distinct (map fst (invoices (updateInvoiceStats owner s))) = distinct (map fst (invoices s))"
  by (simp add: updateInvoiceStats_def Let_def distinct_updateInvoice)

text \<open>
  A change of the chunk map that keeps every owner's number of chunks, followed by a
  recount for the one owner whose status counts may have moved, keeps the invariant.
\<close>

lemma wellCounted_recount:
  assumes "wellCounted s" and "invoices s' = invoices s"
    and "\<And>iid. ownedCount s' iid = ownedCount s iid"
    and "\<And>iid st. iid \<noteq> owner \<Longrightarrow> statusCount s' iid st = statusCount s iid st"
  shows "wellCounted (updateInvoiceStats owner s')"
proof -
  let ?t = "updateInvoiceStats owner s'"
  have c: "chunks ?t = chunks s'" by (rule chunks_updateInvoiceStats)
  have g: "getInvoice s' k = getInvoice s k" for k
    using assms(2) by (simp add: getInvoice_def)
  have "case getInvoice ?t k of
          None \<Rightarrow> ownedCount ?t k = 0
        | Some i \<Rightarrow> int (ownedCount ?t k) \<le> totalChunks i \<and> countsInSync ?t k" for k
    using assms(1) [unfolded wellCounted_def, THEN conjunct2, rule_format, of k]
      assms(3) [of k] assms(4) [of k]
    by (auto simp: getInvoice_updateInvoiceStats g countsInSync_def ownedCount_cong [OF c]
          statusCount_cong [OF c] split: option.splits)
  with assms(1,2) show ?thesis
    by (simp add: wellCounted_def distinct_updateInvoiceStats)
qed

lemma wellCounted_same_counts:
  assumes "wellCounted s" and "invoices s' = invoices s"
    and "\<And>iid. ownedCount s' iid = ownedCount s iid"
    and "\<And>iid st. statusCount s' iid st = statusCount s iid st"
  shows "wellCounted s'"
proof -
  have g: "getInvoice s' k = getInvoice s k" for k
    using assms(2) by (simp add: getInvoice_def)
  have "case getInvoice s' k of
          None \<Rightarrow> ownedCount s' k = 0
        | Some i \<Rightarrow> int (ownedCount s' k) \<le> totalChunks i \<and> countsInSync s' k" for k
    using assms(1) [unfolded wellCounted_def, THEN conjunct2, rule_format, of k]
    by (auto simp: g countsInSync_def assms(3,4) split: option.splits)
  with assms(1,2) show ?thesis
    by (simp add: wellCounted_def)
qed

text \<open>Replacing a stored chunk by one with the same owner.\<close>

lemma replace_ownedCount:
  assumes "map_of (chunks s) cid = Some c" and "invoiceId c' = invoiceId c"
  shows "ownedCount (s\<lparr>chunks := AList.update cid c' (chunks s)\<rparr>) iid = ownedCount s iid"
  using assms by (simp add: ownedCount_def filter_update_length)

lemma replace_statusCount:
  assumes "map_of (chunks s) cid = Some c" and "invoiceId c' = invoiceId c"
    and "iid \<noteq> invoiceId c \<or> c_status c' = c_status c"
  shows "statusCount (s\<lparr>chunks := AList.update cid c' (chunks s)\<rparr>) iid st = statusCount s iid st"
  using assms by (auto simp: statusCount_def intro!: filter_update_length)

lemma wellCounted_setStatus:
  assumes "wellCounted s"
  shows "wellCounted (case updateChunkStatus cid st s of
                        (None, s') \<Rightarrow> s'
                      | (Some updatedChunk, s') \<Rightarrow> updateInvoiceStats (invoiceId updatedChunk) s')"
proof (cases "map_of (chunks s) cid")
  case None
  with assms show ?thesis by (simp add: updateChunkStatus_def)
next
  case (Some c)
  have "wellCounted (updateInvoiceStats (invoiceId c) (s\<lparr>chunks := AList.update cid (c\<lparr>c_status := st\<rparr>) (chunks s)\<rparr>))"
    using assms
  proof (rule wellCounted_recount)
    show "invoices (s\<lparr>chunks := AList.update cid (c\<lparr>c_status := st\<rparr>) (chunks s)\<rparr>) = invoices s"
      by simp
    show "ownedCount (s\<lparr>chunks := AList.update cid (c\<lparr>c_status := st\<rparr>) (chunks s)\<rparr>) iid = ownedCount s iid" for iid
      using Some by (rule replace_ownedCount) simp
    show "statusCount (s\<lparr>chunks := AList.update cid (c\<lparr>c_status := st\<rparr>) (chunks s)\<rparr>) iid st' = statusCount s iid st'"
      if "iid \<noteq> invoiceId c" for iid st'
      using Some _ disjI1 [OF that] by (rule replace_statusCount) simp
  qed
  with Some show ?thesis by (simp add: updateChunkStatus_def Let_def)
qed

lemma wellCounted_approveChunk: "wellCounted s \<Longrightarrow> wellCounted (snd (approveChunk cid s))"
  using wellCounted_setStatus [of s cid Approved]
  by (simp add: approveChunk_def split: prod.splits option.splits)

lemma wellCounted_rejectChunk: "wellCounted s \<Longrightarrow> wellCounted (snd (rejectChunk cid s))"
  using wellCounted_setStatus [of s cid Rejected]
  by (simp add: rejectChunk_def split: prod.splits option.splits)

lemma applyUpdates_owner: "invoiceId (applyUpdates u c) = nullish (uc_invoiceId u) (invoiceId c)"
  by (simp add: applyUpdates_def)

lemma applyUpdates_status: "c_status (applyUpdates u c) = nullish (uc_status u) (c_status c)"
  by (simp add: applyUpdates_def)

lemma patchChunk_found:
  "map_of (chunks s) cid = Some c \<Longrightarrow>
     patchChunk cid (Some u) s
       = (Inr (applyUpdates u c),
          if uc_status u \<noteq> None
          then updateInvoiceStats (invoiceId (applyUpdates u c))
                 (s\<lparr>chunks := AList.update cid (applyUpdates u c) (chunks s)\<rparr>)
          else s\<lparr>chunks := AList.update cid (applyUpdates u c) (chunks s)\<rparr>)"
  by (simp add: patchChunk_def updateChunk_def Let_def)

lemma wellCounted_patchChunk:
  assumes "wellCounted s" and "keepsOwner (Update cid body) s"
  shows "wellCounted (snd (patchChunk cid body s))"
proof (cases body)
  case None
  with assms(1) show ?thesis by (simp add: patchChunk_def)
next
  case body: (Some u)
  show ?thesis
  proof (cases "map_of (chunks s) cid")
    case None
    with assms(1) body show ?thesis by (simp add: patchChunk_def updateChunk_def)
  next
    case (Some c)
    define c' where "c' = applyUpdates u c"
    define s' where "s' = s\<lparr>chunks := AList.update cid c' (chunks s)\<rparr>"
    from assms(2) body Some have "nullish (uc_invoiceId u) (invoiceId c) = invoiceId c"
      by (cases "uc_invoiceId u") (simp_all add: nullish_def getChunk_def)
    then have owner: "invoiceId c' = invoiceId c"
      by (simp only: c'_def applyUpdates_owner)
    have run: "snd (patchChunk cid body s)
        = (if uc_status u \<noteq> None then updateInvoiceStats (invoiceId c) s' else s')"
      unfolding body patchChunk_found [OF Some] s'_def c'_def [symmetric] owner by simp
    have inv: "invoices s' = invoices s" by (simp add: s'_def)
    have oc: "ownedCount s' iid = ownedCount s iid" for iid
      unfolding s'_def using Some owner by (rule replace_ownedCount)
    show ?thesis
    proof (cases "uc_status u")
      case None
      then have "c_status c' = c_status c" by (simp add: c'_def applyUpdates_status nullish_def)
      then have sc: "statusCount s' iid st = statusCount s iid st" for iid st
        unfolding s'_def by (intro replace_statusCount [OF Some owner] disjI2)
      have "wellCounted s'"
        using assms(1) inv oc sc by (rule wellCounted_same_counts)
      with None show ?thesis
        by (simp only: run) simp
    next
      case st: (Some st)
      have "statusCount s' iid st' = statusCount s iid st'" if "iid \<noteq> invoiceId c" for iid st'
        unfolding s'_def using that by (intro replace_statusCount [OF Some owner] disjI1)
      with assms(1) inv oc have "wellCounted (updateInvoiceStats (invoiceId c) s')"
        by (rule wellCounted_recount)
      with st show ?thesis
        by (simp only: run) simp
    qed
  qed
qed

lemma snd_case_response:
  "snd (case r of (None, s') \<Rightarrow> (f, s') | (Some x, s') \<Rightarrow> (g x, s')) = snd r"
  by (cases r; cases "fst r") auto

lemma wellCounted_finalizeInvoice:
  assumes "wellCounted s"
  shows "wellCounted (snd (finalizeInvoice iid s))"
proof -
  have "wellCounted (snd (updateInvoice iid (\<lambda>i. i\<lparr>i_status := st\<rparr>) s))" for st
    using assms by (rule wellCounted_updateInvoice) simp
  with assms show ?thesis
    by (simp add: finalizeInvoice_def Let_def snd_case_response)
qed

subsection \<open>Uploads\<close>

lemma getInvoice_createInvoice_other:
  "k \<noteq> u \<Longrightarrow> getInvoice (snd (createInvoice u ins s)) k = getInvoice s k"
  by (simp add: createInvoice_def getInvoice_def update_conv' Let_def)

lemma distinct_createInvoice:
  "distinct (map fst (invoices s)) \<Longrightarrow> distinct (map fst (invoices (snd (createInvoice u ins s))))"
  by (simp add: createInvoice_def Let_def distinct_update)

lemma countsBounded_createInvoice:
  "countsBounded s \<Longrightarrow> countsBounded (snd (createInvoice u (invoiceData filePath fname mime fsize) s))"
  by (simp add: createInvoice_def invoiceData_def nullish_def Let_def countsBounded_def list_all_update)

lemma countsBounded_cong: "invoices s' = invoices s \<Longrightarrow> countsBounded s' = countsBounded s"
  by (simp add: countsBounded_def)

lemma countsBounded_setProgress: "countsBounded s \<Longrightarrow> countsBounded (setProgress iid p s)"
  unfolding setProgress_def by (rule countsBounded_updateInvoice) simp_all

lemma countsBounded_onCatch: "countsBounded s \<Longrightarrow> countsBounded (onCatch iid s)"
  unfolding onCatch_def by (rule countsBounded_updateInvoice) simp_all

lemma wellCounted_setProgress: "wellCounted s \<Longrightarrow> wellCounted (setProgress iid p s)"
  unfolding setProgress_def by (rule wellCounted_updateInvoice) simp_all

lemma wellCounted_onCatch: "wellCounted s \<Longrightarrow> wellCounted (onCatch iid s)"
  unfolding onCatch_def by (rule wellCounted_updateInvoice) simp_all

lemma upload_cases:
  obtains message where
    "processUploadedFile env filePath fname mime fsize s
       = (invoiceUuid env, Caught message, snd (snd (processUploadedFile env filePath fname mime fsize s)))"
  | "processUploadedFile env filePath fname mime fsize s
       = (invoiceUuid env, Completed, snd (snd (processUploadedFile env filePath fname mime fsize s)))"
  by (cases "fst (snd (processUploadedFile env filePath fname mime fsize s))")
     (auto simp: prod_eq_iff processUploadedFile_eq)

text \<open>Every storage that an upload leaves, write by write, has its counts within the total.\<close>

lemma countsBounded_upload:
  assumes "countsBounded s"
  shows "\<forall>st \<in> set (snd (snd (processUploadedFile env filePath fname mime fsize s))). countsBounded st"
proof -
  let ?trace = "snd (snd (processUploadedFile env filePath fname mime fsize s))"
  let ?iid = "invoiceUuid env"
  let ?s0 = "snd (createInvoice ?iid (invoiceData filePath fname mime fsize) s)"
  have b0: "countsBounded ?s0"
    using assms by (rule countsBounded_createInvoice)
  have b1: "countsBounded (setProgress ?iid 25 ?s0)"
    using b0 by (rule countsBounded_setProgress)
  have b2: "countsBounded (setProgress ?iid 50 (setProgress ?iid 25 ?s0))"
    using b1 by (rule countsBounded_setProgress)
  have b3: "countsBounded (setProgress ?iid 75 (setProgress ?iid 50 (setProgress ?iid 25 ?s0)))"
    using b2 by (rule countsBounded_setProgress)
  show ?thesis
  proof (cases rule: upload_cases [of env filePath fname mime fsize s])
    case (1 message)
    have k1: "countsBounded (onCatch ?iid (setProgress ?iid 25 ?s0))"
      using b1 by (rule countsBounded_onCatch)
    have k2: "countsBounded (onCatch ?iid (setProgress ?iid 50 (setProgress ?iid 25 ?s0)))"
      using b2 by (rule countsBounded_onCatch)
    show ?thesis
    proof (rule upload_Caught [OF 1])
      fix s0
      assume s0: "s0 = ?s0"
        and "?trace = [s0, setProgress ?iid 25 s0, onCatch ?iid (setProgress ?iid 25 s0)]
             \<or> ?trace = [s0, setProgress ?iid 25 s0, setProgress ?iid 50 (setProgress ?iid 25 s0),
                 onCatch ?iid (setProgress ?iid 50 (setProgress ?iid 25 s0))]"
      then show ?thesis
      proof (elim disjE)
        assume "?trace = [s0, setProgress ?iid 25 s0, onCatch ?iid (setProgress ?iid 25 s0)]"
        then show ?thesis unfolding s0 using b0 b1 k1 by simp
      next
        assume "?trace = [s0, setProgress ?iid 25 s0, setProgress ?iid 50 (setProgress ?iid 25 s0),
                 onCatch ?iid (setProgress ?iid 50 (setProgress ?iid 25 s0))]"
        then show ?thesis unfolding s0 using b0 b1 b2 k2 by simp
      qed
    qed
  next
    case 2
    show ?thesis
    proof (rule upload_Completed [OF 2])
      fix b result entries s0 s3 created s5
      assume s0: "s0 = ?s0"
        and s3: "s3 = setProgress ?iid 75 (setProgress ?iid 50 (setProgress ?iid 25 s0))"
        and created: "created = map snd (createChunks (chunkUuid env) ?iid 0
                 (map (\<lambda>(index, chunk). (chunk, int index + 1)) (enumerate 0 entries)) s3)"
        and s5: "s5 = snd (updateInvoice ?iid
                 (\<lambda>i. i\<lparr>i_status := ReadyForReview,
                         processingProgress := 100,
                         extractedText := Some (case r_extractedText result of None \<Rightarrow> [] | Some t \<Rightarrow> t),
                         totalChunks := int (length entries),
                         approvedChunks := 0,
                         rejectedChunks := 0\<rparr>)
                 (last (s3 # created)))"
        and tr: "?trace = [s0, setProgress ?iid 25 s0, setProgress ?iid 50 (setProgress ?iid 25 s0), s3] @ created @ [s5]"
      have c: "countsBounded st" if "st \<in> set (s3 # created)" for st
      proof -
        from that have "st = s3 \<or> st \<in> set created" by simp
        then have "invoices st = invoices s3"
          using createChunks_invoices [of "chunkUuid env" ?iid 0
                  "map (\<lambda>(index, chunk). (chunk, int index + 1)) (enumerate 0 entries)" s3]
          unfolding created by blast
        then have "countsBounded st = countsBounded s3" by (rule countsBounded_cong)
        with b3 show ?thesis by (simp add: s3 s0)
      qed
      have "last (s3 # created) \<in> set (s3 # created)" by (rule last_in_set) simp
      then have "countsBounded (last (s3 # created))" by (rule c)
      then have b5: "countsBounded s5"
        unfolding s5 by (rule countsBounded_updateInvoice) simp
      have c3: "countsBounded s3" by (rule c) simp
      have cc: "\<forall>st \<in> set created. countsBounded st" using c by simp
      show ?thesis
        unfolding tr s0 using b0 b1 b2 c3 cc b5 by simp
    qed
  qed
qed

lemma statusCount_le: "statusCount s iid st \<le> ownedCount s iid"
proof -
  have "length (filter (\<lambda>c. invoiceId c = iid \<and> c_status c = st) xs)
        \<le> length (filter (\<lambda>c. invoiceId c = iid) xs)" for xs :: "chunk list"
    by (induction xs) auto
  then show ?thesis unfolding statusCount_def ownedCount_def .
qed

lemma wellCounted_createInvoice:
  assumes "wellCounted s" and "getInvoice s u = None"
  shows "wellCounted (snd (createInvoice u (invoiceData filePath fname mime fsize) s))"
proof -
  let ?t = "snd (createInvoice u (invoiceData filePath fname mime fsize) s)"
  have c: "chunks ?t = chunks s" by (simp add: createInvoice_facts)
  from assms have "ownedCount s u = 0"
    by (auto simp: wellCounted_def dest!: spec [of _ u])
  with statusCount_le [of s u] have zero: "statusCount s u st = 0" for st
    by (metis le_zero_eq)
  have "case getInvoice ?t k of
          None \<Rightarrow> ownedCount ?t k = 0
        | Some i \<Rightarrow> int (ownedCount ?t k) \<le> totalChunks i \<and> countsInSync ?t k" for k
  proof (cases "k = u")
    case True
    with \<open>ownedCount s u = 0\<close> zero show ?thesis
      by (simp add: createInvoice_facts uploaded_invoice countsInSync_def
          ownedCount_cong [OF c] statusCount_cong [OF c])
  next
    case False
    with assms(1) [unfolded wellCounted_def, THEN conjunct2, rule_format, of k] show ?thesis
      by (simp add: getInvoice_createInvoice_other countsInSync_def
          ownedCount_cong [OF c] statusCount_cong [OF c] split: option.splits)
  qed
  with assms(1) show ?thesis
    by (simp add: wellCounted_def distinct_createInvoice)
qed

lemma length_filter_const:
  "(\<And>x. x \<in> set xs \<Longrightarrow> P x = b) \<Longrightarrow> length (filter P xs) = (if b then length xs else 0)"
  by (induction xs) auto

text \<open>
  Appending \<open>n\<close> pending chunks of one invoice and writing that invoice's total as \<open>n\<close>
  with both counts 0, when the invoice had no chunk, keeps the invariant.
\<close>

lemma wellCounted_batch:
  assumes wc: "wellCounted s" and none: "ownedCount s iid = 0" and ex: "getInvoice s iid \<noteq> None"
    and inv: "\<And>k. getInvoice t k =
                (if k = iid then map_option (\<lambda>i. i\<lparr>i_status := st, processingProgress := p, extractedText := x,
                    totalChunks := int (length new), approvedChunks := 0, rejectedChunks := 0\<rparr>) (getInvoice s iid)
                 else getInvoice s k)"
    and dist: "distinct (map fst (invoices t))"
    and app: "chunks t = chunks s @ new"
    and new: "\<And>c. c \<in> snd ` set new \<Longrightarrow> invoiceId c = iid \<and> c_status c = Pending"
  shows "wellCounted t"
proof -
  have oc: "ownedCount t k = ownedCount s k + (if k = iid then length new else 0)" for k
  proof -
    have "length (filter (\<lambda>c. invoiceId c = k) (map snd new)) = (if k = iid then length (map snd new) else 0)"
      by (rule length_filter_const) (use new in auto)
    then show ?thesis by (simp add: ownedCount_def app del: filter_map length_filter_map)
  qed
  have sc: "statusCount t k st' = statusCount s k st' + (if k = iid \<and> st' = Pending then length new else 0)" for k st'
  proof -
    have "length (filter (\<lambda>c. invoiceId c = k \<and> c_status c = st') (map snd new))
        = (if k = iid \<and> st' = Pending then length (map snd new) else 0)"
      by (rule length_filter_const) (use new in auto)
    then show ?thesis by (simp add: statusCount_def app del: filter_map length_filter_map)
  qed
  from none statusCount_le [of s iid] have zero: "statusCount s iid st' = 0" for st'
    by (metis le_zero_eq)
  have "case getInvoice t k of
          None \<Rightarrow> ownedCount t k = 0
        | Some i \<Rightarrow> int (ownedCount t k) \<le> totalChunks i \<and> countsInSync t k" for k
  proof (cases "k = iid")
    case True
    with none zero ex show ?thesis
      by (auto simp: inv oc sc countsInSync_def split: option.splits)
  next
    case False
    with wc [unfolded wellCounted_def, THEN conjunct2, rule_format, of k] show ?thesis
      by (auto simp: inv oc sc countsInSync_def split: option.splits)
  qed
  with dist show ?thesis by (simp add: wellCounted_def)
qed

text \<open>An upload with new identifiers keeps the invariant, however its run ends.\<close>

lemma wellCounted_upload:
  assumes wc: "wellCounted s" and fresh: "uuidsFresh (Submit env filePath fname mime fsize) s"
  shows "wellCounted (last (snd (snd (processUploadedFile env filePath fname mime fsize s))))"
proof -
  let ?trace = "snd (snd (processUploadedFile env filePath fname mime fsize s))"
  let ?iid = "invoiceUuid env"
  let ?s0 = "snd (createInvoice ?iid (invoiceData filePath fname mime fsize) s)"
  let ?s1 = "setProgress ?iid 25 ?s0"
  let ?s2 = "setProgress ?iid 50 ?s1"
  let ?s3 = "setProgress ?iid 75 ?s2"
  from fresh have "?iid \<notin> set (map fst (invoices s))" by (simp add: Let_def)
  then have none: "getInvoice s ?iid = None"
    by (simp add: getInvoice_def map_of_eq_None_iff)
  with wc have owned: "ownedCount s ?iid = 0"
    by (auto simp: wellCounted_def dest!: spec [of _ ?iid])
  have w0: "wellCounted ?s0" using wc none by (rule wellCounted_createInvoice)
  then have w1: "wellCounted ?s1" by (rule wellCounted_setProgress)
  then have w2: "wellCounted ?s2" by (rule wellCounted_setProgress)
  then have w3: "wellCounted ?s3" by (rule wellCounted_setProgress)
  have chunks3: "chunks ?s3 = chunks s"
    by (simp add: chunks_setProgress createInvoice_facts)
  have ex3: "getInvoice ?s3 ?iid \<noteq> None"
    by (simp add: getInvoice_setProgress createInvoice_facts)
  show ?thesis
  proof (cases rule: upload_cases [of env filePath fname mime fsize s])
    case (1 message)
    show ?thesis
    proof (rule upload_Caught [OF 1])
      fix s0
      assume s0: "s0 = ?s0"
        and "?trace = [s0, setProgress ?iid 25 s0, onCatch ?iid (setProgress ?iid 25 s0)]
             \<or> ?trace = [s0, setProgress ?iid 25 s0, setProgress ?iid 50 (setProgress ?iid 25 s0),
                 onCatch ?iid (setProgress ?iid 50 (setProgress ?iid 25 s0))]"
      then have "last ?trace = onCatch ?iid ?s1 \<or> last ?trace = onCatch ?iid ?s2"
        by (elim disjE) simp_all
      with w1 w2 show ?thesis
        by (elim disjE) (simp_all only: wellCounted_onCatch)
    qed
  next
    case 2
    show ?thesis
    proof (rule upload_Completed [OF 2])
      fix b result entries s0 s3 created s5
      assume b: "convertToBase64Image env filePath mime = Inr b" "openaiCompletion env b = Inr result"
          "r_chunks result = ChunksArray entries"
        and s0: "s0 = ?s0"
        and s3: "s3 = setProgress ?iid 75 (setProgress ?iid 50 (setProgress ?iid 25 s0))"
        and created: "created = map snd (createChunks (chunkUuid env) ?iid 0
                 (map (\<lambda>(index, chunk). (chunk, int index + 1)) (enumerate 0 entries)) s3)"
        and s5: "s5 = snd (updateInvoice ?iid
                 (\<lambda>i. i\<lparr>i_status := ReadyForReview,
                         processingProgress := 100,
                         extractedText := Some (case r_extractedText result of None \<Rightarrow> [] | Some t \<Rightarrow> t),
                         totalChunks := int (length entries),
                         approvedChunks := 0,
                         rejectedChunks := 0\<rparr>)
                 (last (s3 # created)))"
        and tr: "?trace = [s0, setProgress ?iid 25 s0, setProgress ?iid 50 (setProgress ?iid 25 s0), s3] @ created @ [s5]"
      let ?new = "map (\<lambda>(k, e). (chunkUuid env k,
                \<lparr>c_id = chunkUuid env k, invoiceId = ?iid, chunkType = ec_type e,
                 sequenceNumber = int k + 1, title = ec_title e, extractedData = ec_data e,
                 boundingBox = ec_boundingBox e, confidence = ec_confidence e,
                 c_status = Pending, isEdited = Some False, originalData = None\<rparr>))
           (enumerate 0 entries)"
      from s3 s0 have s3': "s3 = ?s3" by simp
      have last: "last ?trace = s5" unfolding tr by simp
      have inv4: "invoices (last (s3 # created)) = invoices ?s3"
        unfolding created s3' by (rule invoices_last_created)
      have g4: "getInvoice (last (s3 # created)) k = getInvoice ?s3 k" for k
        by (simp only: getInvoice_def inv4)
      have "wellCounted s5"
      proof (rule wellCounted_batch [OF w3 _ ex3, where new = ?new])
        show "ownedCount ?s3 ?iid = 0"
          using owned by (simp add: ownedCount_cong [OF chunks3])
        show "getInvoice s5 k =
                (if k = ?iid then map_option (\<lambda>i. i\<lparr>i_status := ReadyForReview, processingProgress := 100,
                    extractedText := Some (case r_extractedText result of None \<Rightarrow> [] | Some t \<Rightarrow> t),
                    totalChunks := int (length ?new), approvedChunks := 0, rejectedChunks := 0\<rparr>) (getInvoice ?s3 ?iid)
                 else getInvoice ?s3 k)" for k
          unfolding s5 getInvoice_updateInvoice g4 by simp
        show "distinct (map fst (invoices s5))"
          unfolding s5 distinct_updateInvoice inv4 using w3 by (simp add: wellCounted_def)
        have "chunks s5 = chunks (last (s3 # created))"
          unfolding s5 by (rule chunks_updateInvoice)
        also have "\<dots> = chunks s @ ?new"
          unfolding created s3' using fresh b chunks3 by (rule created_stored)
        finally show "chunks s5 = chunks ?s3 @ ?new" by (simp only: chunks3)
        show "invoiceId c = ?iid \<and> c_status c = Pending" if "c \<in> snd ` set ?new" for c
          using that by (auto simp: case_prod_unfold)
      qed
      with last show ?thesis by simp
    qed
  qed
qed

lemma wellCounted_perform:
  assumes "wellCounted s" and "uuidsFresh op s" and "keepsOwner op s"
  shows "wellCounted (perform op s)"
proof (cases op)
  case (Submit env filePath fname mime fsize)
  with assms(1,2) show ?thesis
    by (simp add: perform_def wellCounted_upload)
next
  case (Approve cid)
  with assms(1) show ?thesis by (simp add: perform_def wellCounted_approveChunk)
next
  case (Reject cid)
  with assms(1) show ?thesis by (simp add: perform_def wellCounted_rejectChunk)
next
  case (Update cid body)
  with assms(1,3) show ?thesis by (simp add: perform_def wellCounted_patchChunk)
next
  case (Finalize iid)
  with assms(1) show ?thesis by (simp add: perform_def wellCounted_finalizeInvoice)
qed

lemma observations_bounded:
  assumes "wellCounted s" and "uuidsFresh op s" and "keepsOwner op s"
  shows "\<forall>st \<in> set (observations op s). countsBounded st"
proof (cases op)
  case (Submit env filePath fname mime fsize)
  from assms(1) have "countsBounded s" by (rule wellCounted_countsBounded)
  then show ?thesis
    unfolding Submit observations.simps by (rule countsBounded_upload)
next
  case (Approve cid)
  from assms have "countsBounded (perform op s)"
    by (intro wellCounted_countsBounded wellCounted_perform)
  with Approve show ?thesis by (simp add: perform_def)
next
  case (Reject cid)
  from assms have "countsBounded (perform op s)"
    by (intro wellCounted_countsBounded wellCounted_perform)
  with Reject show ?thesis by (simp add: perform_def)
next
  case (Update cid body)
  from assms have "countsBounded (perform op s)"
    by (intro wellCounted_countsBounded wellCounted_perform)
  with Update show ?thesis by (simp add: perform_def)
next
  case (Finalize iid)
  from assms have "countsBounded (perform op s)"
    by (intro wellCounted_countsBounded wellCounted_perform)
  with Finalize show ?thesis by (simp add: perform_def)
qed

lemma wellCounted_newMemStorage: "wellCounted newMemStorage"
  by (simp add: wellCounted_def newMemStorage_def getInvoice_def ownedCount_def)

lemma history_bounded:
  "wellCounted s \<Longrightarrow> feasible ops s \<Longrightarrow> ownersKept ops s
     \<Longrightarrow> \<forall>st \<in> set (history ops s). countsBounded st"
proof (induction ops arbitrary: s)
  case Nil
  then show ?case by (simp add: wellCounted_countsBounded)
next
  case (Cons op ops)
  from Cons.prems have fresh: "uuidsFresh op s" and keeps: "keepsOwner op s"
    and rest: "feasible ops (perform op s)" "ownersKept ops (perform op s)"
    by simp_all
  from Cons.prems(1) fresh keeps have "wellCounted (perform op s)" by (rule wellCounted_perform)
  then have "\<forall>st \<in> set (history ops (perform op s)). countsBounded st"
    using rest by (rule Cons.IH)
  moreover from Cons.prems(1) fresh keeps have "\<forall>st \<in> set (observations op s). countsBounded st"
    by (rule observations_bounded)
  moreover from Cons.prems(1) have "countsBounded s" by (rule wellCounted_countsBounded)
  ultimately show ?case by auto
qed

lemma wellCounted_performAll:
  "wellCounted s \<Longrightarrow> feasible ops s \<Longrightarrow> ownersKept ops s \<Longrightarrow> wellCounted (performAll ops s)"
proof (induction ops arbitrary: s)
  case Nil
  then show ?case by simp
next
  case (Cons op ops)
  from Cons.prems have "wellCounted (perform op s)"
    by (intro wellCounted_perform) simp_all
  with Cons.prems show ?case by (simp add: Cons.IH)
qed

text \<open>Along operations that keep owners, every invoice's counts stay in sync.\<close>

lemma reachable_inSync:
  assumes "feasible ops newMemStorage" and "ownersKept ops newMemStorage"
  shows "countsInSync (performAll ops newMemStorage) iid"
proof -
  from wellCounted_newMemStorage assms have "wellCounted (performAll ops newMemStorage)"
    by (rule wellCounted_performAll)
  then show ?thesis
    by (auto simp: wellCounted_def countsInSync_def split: option.splits dest!: spec [of _ iid])
qed

text \<open>A recount leaves the invoice in sync, so a second one changes nothing.\<close>

lemma inSync_updateInvoiceStats: "countsInSync (updateInvoiceStats owner s) owner"
  by (simp add: countsInSync_def getInvoice_updateInvoiceStats
      statusCount_cong [OF chunks_updateInvoiceStats] split: option.splits)

text \<open>
  Claim C6. Starting from the empty storage, along every sequence of uploads, approvals,
  rejections, updates and finalizations, every storage seen (after each operation, and after
  each write of an upload's run) has \<^verbatim>\<open>approvedChunks + rejectedChunks \<le> totalChunks\<close> for
  every invoice. The identifiers drawn are new, and an update is one of the specification's:
  it may change any field of its chunk but the owner, which is fixed when the chunk is
  created.
\<close>

theorem counts_bounded:
  assumes "feasible ops newMemStorage" and "ownersKept ops newMemStorage"
  shows "\<forall>st \<in> set (history ops newMemStorage). countsBounded st"
  using wellCounted_newMemStorage assms by (rule history_bounded)

lemma updateInvoiceStats_inSync:
  assumes "countsInSync s owner"
  shows "updateInvoiceStats owner s = s"
proof (cases "map_of (invoices s) owner")
  case None
  then show ?thesis by (simp add: updateInvoiceStats_def updateInvoice_def Let_def)
next
  case (Some i)
  with assms have "i\<lparr>approvedChunks := int (statusCount s owner Approved),
                     rejectedChunks := int (statusCount s owner Rejected)\<rparr> = i"
    by (simp add: countsInSync_def getInvoice_def)
  with Some show ?thesis
    by (simp add: updateInvoiceStats_def updateInvoice_def Let_def recount_statusCount update_same)
qed

lemma updateChunkStatus_same:
  assumes "getChunk s cid = Some c" and "c_status c = st"
  shows "updateChunkStatus cid st s = (Some c, s)"
proof -
  from assms(2) have "c\<lparr>c_status := st\<rparr> = c" by auto
  with assms(1) show ?thesis
    by (simp add: updateChunkStatus_def getChunk_def Let_def update_same)
qed

text \<open>
  With the owner's counts in sync, approving an approved chunk answers with the chunk as it
  is and leaves the storage as it is, and so does rejecting a rejected chunk.
\<close>

lemma decided_noop:
  assumes "getChunk s cid = Some c" and "countsInSync s (invoiceId c)"
  shows "(c_status c = Approved \<longrightarrow> approveChunk cid s = (Inr c, s))
       \<and> (c_status c = Rejected \<longrightarrow> rejectChunk cid s = (Inr c, s))"
  using assms
  by (simp add: approveChunk_def rejectChunk_def updateChunkStatus_same updateInvoiceStats_inSync)

text \<open>What the two status routes do with a stored chunk, and with an unknown id.\<close>

lemma setStatus_found:
  assumes "getChunk s cid = Some c"
  shows "approveChunk cid s
           = (Inr (c\<lparr>c_status := Approved\<rparr>),
              updateInvoiceStats (invoiceId c)
                (s\<lparr>chunks := AList.update cid (c\<lparr>c_status := Approved\<rparr>) (chunks s)\<rparr>))"
    and "rejectChunk cid s
           = (Inr (c\<lparr>c_status := Rejected\<rparr>),
              updateInvoiceStats (invoiceId c)
                (s\<lparr>chunks := AList.update cid (c\<lparr>c_status := Rejected\<rparr>) (chunks s)\<rparr>))"
  using assms
  by (simp_all add: approveChunk_def rejectChunk_def updateChunkStatus_def getChunk_def Let_def)

lemma setStatus_missing:
  assumes "getChunk s cid = None"
  shows "approveChunk cid s = (Inl (Http404 ''Chunk not found''), s)"
    and "rejectChunk cid s = (Inl (Http404 ''Chunk not found''), s)"
  using assms
  by (simp_all add: approveChunk_def rejectChunk_def updateChunkStatus_def getChunk_def)

lemma getChunk_recounted:
  "getChunk (updateInvoiceStats owner (s\<lparr>chunks := AList.update cid c (chunks s)\<rparr>)) cid = Some c"
  by (simp add: getChunk_def chunks_updateInvoiceStats update_conv')

text \<open>Approving twice in a row is approving once, from any storage; so is rejecting.\<close>

lemma approve_twice:
  "approveChunk cid (snd (approveChunk cid s)) = (fst (approveChunk cid s), snd (approveChunk cid s))"
proof (cases "getChunk s cid")
  case None
  then show ?thesis by (simp add: setStatus_missing)
next
  case (Some c)
  let ?c = "c\<lparr>c_status := Approved\<rparr>"
  let ?t = "updateInvoiceStats (invoiceId c) (s\<lparr>chunks := AList.update cid ?c (chunks s)\<rparr>)"
  have "getChunk ?t cid = Some ?c" by (rule getChunk_recounted)
  moreover have "countsInSync ?t (invoiceId ?c)"
    using inSync_updateInvoiceStats [of "invoiceId c"] by simp
  ultimately have "approveChunk cid ?t = (Inr ?c, ?t)"
    using decided_noop [of ?t cid ?c] by simp
  then show ?thesis by (simp add: setStatus_found [OF Some])
qed

lemma reject_twice:
  "rejectChunk cid (snd (rejectChunk cid s)) = (fst (rejectChunk cid s), snd (rejectChunk cid s))"
proof (cases "getChunk s cid")
  case None
  then show ?thesis by (simp add: setStatus_missing)
next
  case (Some c)
  let ?c = "c\<lparr>c_status := Rejected\<rparr>"
  let ?t = "updateInvoiceStats (invoiceId c) (s\<lparr>chunks := AList.update cid ?c (chunks s)\<rparr>)"
  have "getChunk ?t cid = Some ?c" by (rule getChunk_recounted)
  moreover have "countsInSync ?t (invoiceId ?c)"
    using inSync_updateInvoiceStats [of "invoiceId c"] by simp
  ultimately have "rejectChunk cid ?t = (Inr ?c, ?t)"
    using decided_noop [of ?t cid ?c] by simp
  then show ?thesis by (simp add: setStatus_found [OF Some])
qed

text \<open>
  Claim C7. Approving a chunk a second time, right after approving it, gives the same answer
  and leaves the storage of the first approval as it is, from any storage and for any id;
  so does rejecting. And in every storage reached from the empty one by uploads, approvals,
  rejections, updates and finalizations (identifiers new, no update giving a chunk another
  owner), approving a chunk whose status is approved answers with the chunk as it is and
  leaves the storage as it is: its status and both counts of its invoice are unchanged; so
  does rejecting a chunk whose status is rejected.
\<close>

theorem approve_reject_idempotent:
  "approveChunk cid (snd (approveChunk cid s)) = (fst (approveChunk cid s), snd (approveChunk cid s))
   \<and> rejectChunk cid (snd (rejectChunk cid s)) = (fst (rejectChunk cid s), snd (rejectChunk cid s))
   \<and> (feasible ops newMemStorage \<and> ownersKept ops newMemStorage
        \<and> getChunk (performAll ops newMemStorage) cid' = Some c
      \<longrightarrow> (c_status c = Approved \<longrightarrow>
             approveChunk cid' (performAll ops newMemStorage) = (Inr c, performAll ops newMemStorage))
          \<and> (c_status c = Rejected \<longrightarrow>
             rejectChunk cid' (performAll ops newMemStorage) = (Inr c, performAll ops newMemStorage)))"
proof (intro conjI impI)
  show "approveChunk cid (snd (approveChunk cid s)) = (fst (approveChunk cid s), snd (approveChunk cid s))"
    by (rule approve_twice)
  show "rejectChunk cid (snd (rejectChunk cid s)) = (fst (rejectChunk cid s), snd (rejectChunk cid s))"
    by (rule reject_twice)
next
  assume a: "feasible ops newMemStorage \<and> ownersKept ops newMemStorage
        \<and> getChunk (performAll ops newMemStorage) cid' = Some c"
  then have sync: "countsInSync (performAll ops newMemStorage) (invoiceId c)"
    by (intro reachable_inSync) simp_all
  from a have g: "getChunk (performAll ops newMemStorage) cid' = Some c" by simp
  {
    assume "c_status c = Approved"
    with decided_noop [OF g sync]
    show "approveChunk cid' (performAll ops newMemStorage) = (Inr c, performAll ops newMemStorage)"
      by simp
  }
  {
    assume "c_status c = Rejected"
    with decided_noop [OF g sync]
    show "rejectChunk cid' (performAll ops newMemStorage) = (Inr c, performAll ops newMemStorage)"
      by simp
  }
qed


lemma fresh_A: "uuidsFresh (sampleSubmit ''A'') newMemStorage"
  by (simp add: sampleSubmit_def sampleEnv_def chunkCount_def convertToBase64Image_def
      parseInvoiceWithVision_def sampleEntries_def newMemStorage_def Let_def upt_rec)

lemma perform_A:
  "perform (sampleSubmit ''A'') newMemStorage
     = \<lparr>invoices = [(''A'', uploadedInvoice ''A'')], chunks = uploadedChunks ''A''\<rparr>"
  by (simp add: perform_def sampleSubmit_def sampleEnv_def processUploadedFile_def
      processFileInBackground_def convertToBase64Image_def parseInvoiceWithVision_def
      createInvoice_def invoiceData_def setProgress_def updateInvoice_def createChunk_def
      insertChunk_def nullish_def sampleEntries_def newMemStorage_def uploadedInvoice_def
      uploadedChunks_def Let_def)


lemma fresh_B:
  "uuidsFresh (sampleSubmit ''B'') \<lparr>invoices = [(''A'', uploadedInvoice ''A'')], chunks = uploadedChunks ''A''\<rparr>"
  by (simp add: sampleSubmit_def sampleEnv_def chunkCount_def convertToBase64Image_def
      parseInvoiceWithVision_def sampleEntries_def uploadedChunks_def Let_def upt_rec)

lemma perform_B:
  "perform (sampleSubmit ''B'') \<lparr>invoices = [(''A'', uploadedInvoice ''A'')], chunks = uploadedChunks ''A''\<rparr>
     = twoUploads"
  by (simp add: perform_def sampleSubmit_def sampleEnv_def processUploadedFile_def
      processFileInBackground_def convertToBase64Image_def parseInvoiceWithVision_def
      createInvoice_def invoiceData_def setProgress_def updateInvoice_def createChunk_def
      insertChunk_def nullish_def sampleEntries_def twoUploads_def uploadedInvoice_def
      uploadedChunks_def Let_def)

lemma feasible_two_uploads:
  "feasible (sampleSubmit ''A'' # sampleSubmit ''B'' # ops) newMemStorage = feasible ops twoUploads"
  by (simp add: fresh_A perform_A fresh_B perform_B)

lemma performAll_two_uploads:
  "performAll (sampleSubmit ''A'' # sampleSubmit ''B'' # ops) newMemStorage = performAll ops twoUploads"
  by (simp add: perform_A perform_B)

lemmas route_defs = perform_def approveChunk_def rejectChunk_def patchChunk_def updateChunkStatus_def
  updateChunk_def applyUpdates_def updateInvoiceStats_def updateInvoice_def getChunksByInvoice_def
  nullish_def Let_def

lemmas two_defs = twoUploads_def uploadedInvoice_def uploadedChunks_def

theorem counts_bounded_witness:
  "feasible [sampleSubmit ''A'', Approve ''A-c'', Reject ''A-cc'',
             Update ''A-c'' (Some (editBody (JObj [(''vendor'', JStr ''Acme Ltd'')]))), Finalize ''A'']
     newMemStorage
   \<and> ownersKept [sampleSubmit ''A'', Approve ''A-c'', Reject ''A-cc'',
             Update ''A-c'' (Some (editBody (JObj [(''vendor'', JStr ''Acme Ltd'')]))), Finalize ''A'']
     newMemStorage
   \<and> list_all countsBounded
        (history [sampleSubmit ''A'', Approve ''A-c'', Reject ''A-cc'',
             Update ''A-c'' (Some (editBody (JObj [(''vendor'', JStr ''Acme Ltd'')]))), Finalize ''A'']
           newMemStorage)"
proof -
  have f: "feasible [sampleSubmit ''A'', Approve ''A-c'', Reject ''A-cc'',
             Update ''A-c'' (Some (editBody (JObj [(''vendor'', JStr ''Acme Ltd'')]))), Finalize ''A'']
     newMemStorage"
    by (simp add: fresh_A)
  have k: "ownersKept [sampleSubmit ''A'', Approve ''A-c'', Reject ''A-cc'',
             Update ''A-c'' (Some (editBody (JObj [(''vendor'', JStr ''Acme Ltd'')]))), Finalize ''A'']
     newMemStorage"
    by (simp add: sampleSubmit_def editBody_def)
  from counts_bounded [OF f k] f k show ?thesis
    by (simp only: list_all_iff simp_thms)
qed

lemma perform_routes:
  "perform (Approve cid) s = snd (approveChunk cid s)"
  "perform (Reject cid) s = snd (rejectChunk cid s)"
  "perform (Update cid body) s = snd (patchChunk cid body s)"
  "perform (Finalize iid) s = snd (finalizeInvoice iid s)"
  by (simp_all add: perform_def)

lemmas status_route_defs = approveChunk_def rejectChunk_def updateChunkStatus_def
  updateInvoiceStats_def updateInvoice_def getChunksByInvoice_def Let_def

theorem approve_reject_idempotent_witness:
  "feasible [sampleSubmit ''A'', Approve ''A-c'', Reject ''A-cc''] newMemStorage
   \<and> ownersKept [sampleSubmit ''A'', Approve ''A-c'', Reject ''A-cc''] newMemStorage
   \<and> map_option c_status
        (getChunk (performAll [sampleSubmit ''A'', Approve ''A-c'', Reject ''A-cc''] newMemStorage) ''A-c'')
      = Some Approved
   \<and> map_option c_status
        (getChunk (performAll [sampleSubmit ''A'', Approve ''A-c'', Reject ''A-cc''] newMemStorage) ''A-cc'')
      = Some Rejected
   \<and> snd (approveChunk ''A-c'' (performAll [sampleSubmit ''A'', Approve ''A-c'', Reject ''A-cc''] newMemStorage))
      = performAll [sampleSubmit ''A'', Approve ''A-c'', Reject ''A-cc''] newMemStorage
   \<and> snd (rejectChunk ''A-cc'' (performAll [sampleSubmit ''A'', Approve ''A-c'', Reject ''A-cc''] newMemStorage))
      = performAll [sampleSubmit ''A'', Approve ''A-c'', Reject ''A-cc''] newMemStorage"
proof -
  let ?ops = "[sampleSubmit ''A'', Approve ''A-c'', Reject ''A-cc'']"
  have f: "feasible ?ops newMemStorage" by (simp add: fresh_A)
  have k: "ownersKept ?ops newMemStorage" by (simp add: sampleSubmit_def)
  have st: "map_option c_status (getChunk (performAll ?ops newMemStorage) ''A-c'') = Some Approved"
    "map_option c_status (getChunk (performAll ?ops newMemStorage) ''A-cc'') = Some Rejected"
    by (simp_all add: perform_A perform_routes status_route_defs uploadedChunks_def
        uploadedInvoice_def getChunk_def)
  then obtain c1 c2 where c1: "getChunk (performAll ?ops newMemStorage) ''A-c'' = Some c1" "c_status c1 = Approved"
    and c2: "getChunk (performAll ?ops newMemStorage) ''A-cc'' = Some c2" "c_status c2 = Rejected"
    by auto
  from approve_reject_idempotent [of _ _ ?ops "''A-c''" c1] approve_reject_idempotent [of _ _ ?ops "''A-cc''" c2]
    f k c1 c2 st
  show ?thesis by simp
qed

subsection \<open>A body that names another owner\<close>

text \<open>
  The schema of the \<^verbatim>\<open>PATCH\<close> route is the insert schema made partial, so it also admits a
  body with an \<^verbatim>\<open>invoiceId\<close>. The update of the specification changes a chunk's status, data,
  edited flag and original data, its owner being fixed at creation, and the one caller of the
  route, \<^verbatim>\<open>ChunkReview.saveChanges\<close>, sends no \<^verbatim>\<open>invoiceId\<close>: a sequence with such a body does
  not satisfy \<open>ownersKept\<close> and is none of those the two theorems above speak of. The route
  does not guard against it. It recounts the new owner only, and only when a status comes with
  the body; \<^verbatim>\<open>totalChunks\<close> is written by the run alone. After two uploads of two chunks each
  and the approval of both chunks of \<open>A\<close>, a body that moves a chunk of \<open>B\<close> to \<open>A\<close> with
  status approved leaves \<open>A\<close> with 3 approved chunks of a total of 2.
\<close>

lemma moved_chunk_exceeds_total:
  "feasible [sampleSubmit ''A'', sampleSubmit ''B'', Approve ''A-c'', Approve ''A-cc'',
             Update ''B-c'' (Some (moveBody ''A'' (Some Approved)))] newMemStorage
   \<and> map_option (\<lambda>i. (approvedChunks i, rejectedChunks i, totalChunks i))
       (getInvoice
          (performAll [sampleSubmit ''A'', sampleSubmit ''B'', Approve ''A-c'', Approve ''A-cc'',
                       Update ''B-c'' (Some (moveBody ''A'' (Some Approved)))] newMemStorage) ''A'')
     = Some (3, 0, 2)
   \<and> \<not> countsBounded
         (performAll [sampleSubmit ''A'', sampleSubmit ''B'', Approve ''A-c'', Approve ''A-cc'',
                      Update ''B-c'' (Some (moveBody ''A'' (Some Approved)))] newMemStorage)"
  unfolding feasible_two_uploads performAll_two_uploads
  by (simp add: route_defs two_defs moveBody_def countsBounded_def getInvoice_def)

text \<open>
  A body that moves an approved chunk of \<open>B\<close> to \<open>A\<close> without a status skips the recount:
  \<open>A\<close> still stores 1 approved chunk while 2 name it, and approving the approved chunk
  \<open>A-c\<close> once more then changes the count of \<open>A\<close> from 1 to 2.
\<close>

lemma stale_count_changes_on_approve:
  "feasible [sampleSubmit ''A'', sampleSubmit ''B'', Approve ''A-c'', Approve ''B-c'',
             Update ''B-c'' (Some (moveBody ''A'' None))] newMemStorage
   \<and> map_option c_status
       (getChunk (performAll [sampleSubmit ''A'', sampleSubmit ''B'', Approve ''A-c'', Approve ''B-c'',
                              Update ''B-c'' (Some (moveBody ''A'' None))] newMemStorage) ''A-c'')
     = Some Approved
   \<and> map_option approvedChunks
       (getInvoice (performAll [sampleSubmit ''A'', sampleSubmit ''B'', Approve ''A-c'', Approve ''B-c'',
                                Update ''B-c'' (Some (moveBody ''A'' None))] newMemStorage) ''A'')
     = Some 1
   \<and> map_option approvedChunks
       (getInvoice
          (snd (approveChunk ''A-c''
             (performAll [sampleSubmit ''A'', sampleSubmit ''B'', Approve ''A-c'', Approve ''B-c'',
                          Update ''B-c'' (Some (moveBody ''A'' None))] newMemStorage))) ''A'')
     = Some 2"
  unfolding feasible_two_uploads performAll_two_uploads
  by (simp add: route_defs two_defs moveBody_def getInvoice_def getChunk_def)


end
